theory Spec2Isabelle
  imports Complex_Main "HOL-Library.Log_Nat"
begin

section \<open>JavaScript numbers\<close>

text \<open>
  The route handler computes with JavaScript numbers, which are IEEE-754 binary64 values.
  A \<^emph>\<open>number\<close> is a finite value, one of the two infinities, or \<open>NaN\<close>; \<open>Finite x\<close> stands for the
  double whose value is \<open>x\<close>. Every arithmetic operation rounds its exact result to the nearest
  double, a tie going to the even significand, and overflows to an infinity.

  The sign of zero is not modelled (\<open>-0\<close> is \<open>Finite 0\<close>): the handler never divides by a zero
  and never compares with \<open>Object.is\<close>, and \<open>-0\<close> is serialised as \<open>0\<close>.
\<close>

datatype number = Finite real | PInf | NInf | NaN

definition pow2 :: "int \<Rightarrow> real" where
  \<comment> \<open>\<open>2\<close> to the power \<open>k\<close>, for an integer \<open>k\<close> of either sign.\<close>
  "pow2 k = (if 0 \<le> k then 2 ^ nat k else 1 / 2 ^ nat (- k))"

definition expo :: "real \<Rightarrow> int" where
  \<comment> \<open>The binary exponent of \<open>x \<noteq> 0\<close>: the \<open>e\<close> with \<open>2\<^sup>e \<le> |x| < 2\<^bsup>e+1\<^esup>\<close>.\<close>
  "expo x = (if 1 \<le> \<bar>x\<bar> then bitlen \<lfloor>\<bar>x\<bar>\<rfloor> - 1 else - bitlen (\<lceil>1 / \<bar>x\<bar>\<rceil> - 1))"

definition ulp_exp :: "real \<Rightarrow> int" where
  \<comment> \<open>The exponent of the unit in the last place at \<open>x\<close>: 53 significant bits, and the
      spacing \<open>2\<^bsup>-1074\<^esup>\<close> of the subnormal range at the bottom.\<close>
  "ulp_exp x = (if x = 0 then - 1074 else max (expo x - 52) (- 1074))"

definition round_even :: "real \<Rightarrow> int" where
  \<comment> \<open>The nearest integer, a tie going to the even one.\<close>
  "round_even q =
     (let f = \<lfloor>q\<rfloor>; d = q - of_int f
      in if d < 1 / 2 then f else if 1 / 2 < d then f + 1 else if even f then f else f + 1)"

definition rnd :: "real \<Rightarrow> real" where
  \<comment> \<open>\<open>x\<close> rounded to the nearest multiple of its unit in the last place.\<close>
  "rnd x = of_int (round_even (x / pow2 (ulp_exp x))) * pow2 (ulp_exp x)"

definition fl :: "real \<Rightarrow> number" where
  \<comment> \<open>The double an exact result \<open>x\<close> is rounded to: an infinity from \<open>2\<^bsup>1024\<^esup>\<close> on.\<close>
  "fl x =
     (let y = rnd x
      in if y \<noteq> 0 \<and> 1024 \<le> expo y then (if 0 < y then PInf else NInf) else Finite y)"

fun js_neg :: "number \<Rightarrow> number" where
  "js_neg (Finite x) = Finite (- x)"
| "js_neg PInf = NInf"
| "js_neg NInf = PInf"
| "js_neg NaN = NaN"

fun js_add :: "number \<Rightarrow> number \<Rightarrow> number" where
  "js_add (Finite x) (Finite y) = fl (x + y)"
| "js_add NaN b = NaN"
| "js_add a NaN = NaN"
| "js_add PInf NInf = NaN"
| "js_add NInf PInf = NaN"
| "js_add PInf b = PInf"
| "js_add NInf b = NInf"
| "js_add a PInf = PInf"
| "js_add a NInf = NInf"

definition js_sub :: "number \<Rightarrow> number \<Rightarrow> number" where
  "js_sub a b = js_add a (js_neg b)"

fun js_mul :: "number \<Rightarrow> number \<Rightarrow> number" where
  "js_mul (Finite x) (Finite y) = fl (x * y)"
| "js_mul NaN b = NaN"
| "js_mul a NaN = NaN"
| "js_mul (Finite x) PInf = (if x = 0 then NaN else if 0 < x then PInf else NInf)"
| "js_mul (Finite x) NInf = (if x = 0 then NaN else if 0 < x then NInf else PInf)"
| "js_mul PInf (Finite y) = (if y = 0 then NaN else if 0 < y then PInf else NInf)"
| "js_mul NInf (Finite y) = (if y = 0 then NaN else if 0 < y then NInf else PInf)"
| "js_mul PInf PInf = PInf"
| "js_mul NInf NInf = PInf"
| "js_mul PInf NInf = NInf"
| "js_mul NInf PInf = NInf"

fun js_div :: "number \<Rightarrow> number \<Rightarrow> number" where
  "js_div (Finite x) (Finite y) =
     (if y = 0 then (if x = 0 then NaN else if 0 < x then PInf else NInf) else fl (x / y))"
| "js_div NaN b = NaN"
| "js_div a NaN = NaN"
| "js_div (Finite x) b = Finite 0"
| "js_div PInf (Finite y) = (if 0 \<le> y then PInf else NInf)"
| "js_div NInf (Finite y) = (if 0 \<le> y then NInf else PInf)"
| "js_div a b = NaN"

fun num_le :: "number \<Rightarrow> number \<Rightarrow> bool" where
  \<comment> \<open>The order of the numbers other than \<open>NaN\<close>.\<close>
  "num_le (Finite x) (Finite y) = (x \<le> y)"
| "num_le NaN b = False"
| "num_le a NaN = False"
| "num_le NInf b = True"
| "num_le a PInf = True"
| "num_le a b = False"

definition js_gt :: "number \<Rightarrow> number \<Rightarrow> bool" where
  \<comment> \<open>\<open>a > b\<close>: false when either is \<open>NaN\<close>.\<close>
  "js_gt a b \<longleftrightarrow> a \<noteq> NaN \<and> b \<noteq> NaN \<and> \<not> num_le a b"

definition js_eq :: "number \<Rightarrow> number \<Rightarrow> bool" where
  \<comment> \<open>\<open>a === b\<close>: \<open>NaN\<close> is equal to nothing.\<close>
  "js_eq a b \<longleftrightarrow> a \<noteq> NaN \<and> a = b"

definition truthy :: "number \<Rightarrow> bool" where
  "truthy a \<longleftrightarrow> a \<noteq> NaN \<and> a \<noteq> Finite 0"

definition or_num :: "number option \<Rightarrow> number \<Rightarrow> number" where
  \<comment> \<open>\<open>a || b\<close> on numbers: \<open>a\<close> unless it is falsy (absent, \<open>NaN\<close> or \<open>0\<close>).\<close>
  "or_num a b = (case a of None \<Rightarrow> b | Some v \<Rightarrow> if truthy v then v else b)"

fun Math_round :: "number \<Rightarrow> number" where
  \<comment> \<open>\<open>Math.round\<close>: the nearest integer, a tie going up. The result is exact: a double of
      magnitude \<open>2\<^bsup>52\<^esup>\<close> or more is an integer already.\<close>
  "Math_round (Finite x) = Finite (of_int \<lfloor>x + 1 / 2\<rfloor>)"
| "Math_round a = a"

definition Math_min :: "number \<Rightarrow> number \<Rightarrow> number" where
  "Math_min a b = (if a = NaN \<or> b = NaN then NaN else if num_le a b then a else b)"

definition Math_max :: "number \<Rightarrow> number \<Rightarrow> number" where
  "Math_max a b = (if a = NaN \<or> b = NaN then NaN else if num_le a b then b else a)"

section \<open>The output record\<close>

record TeamDefenseStats =
  team :: string
  fullName :: string
  logo :: string
  pointsAllowed :: number
  yardsAllowed :: number
  passYardsAllowed :: number
  rushYardsAllowed :: number
  sacks :: number
  interceptions :: number
  fumbles :: number
  dvoa :: number

section \<open>The composite scorer\<close>

record min_max =
  mm_min :: number
  mm_max :: number

definition minMax :: "number \<Rightarrow> number list \<Rightarrow> min_max" where
  \<comment> \<open>\<open>minMax\<close> of the source on the non-empty array \<open>a # arr\<close>: \<open>Math.min(...)\<close> and
      \<open>Math.max(...)\<close> of its elements. The scorer returns before it builds any array when
      there is no team, so the empty array never reaches \<open>minMax\<close>.\<close>
  "minMax a arr = \<lparr>mm_min = fold Math_min arr a, mm_max = fold Math_max arr a\<rparr>"

definition norm_mm :: "number \<Rightarrow> min_max \<Rightarrow> number" where
  "norm_mm v mm =
     (if js_eq (mm_max mm) (mm_min mm) then Finite (1 / 2)
      else js_div (js_sub v (mm_min mm)) (js_sub (mm_max mm) (mm_min mm)))"

definition score ::
  "min_max \<Rightarrow> min_max \<Rightarrow> min_max \<Rightarrow> min_max \<Rightarrow> min_max \<Rightarrow> TeamDefenseStats \<Rightarrow> number" where
  \<comment> \<open>The \<open>score\<close> constant of the loop body; \<open>+\<close> associates to the left.\<close>
  "score pts yds sck itc fum t =
     js_add
       (js_add
         (js_add
           (js_add
             (js_mul (js_sub (Finite 1) (norm_mm (pointsAllowed t) pts)) (Finite 30))
             (js_mul (js_sub (Finite 1) (norm_mm (yardsAllowed t) yds)) (Finite 25)))
           (js_mul (norm_mm (sacks t) sck) (Finite 20)))
         (js_mul (norm_mm (interceptions t) itc) (Finite 15)))
       (js_mul (norm_mm (fumbles t) fum) (Finite 10))"

fun computeEfficiencyRating :: "TeamDefenseStats list \<Rightarrow> TeamDefenseStats list" where
  \<comment> \<open>The source writes \<open>dvoa\<close> into the records of the array it is given; the model
      returns the array after the call.\<close>
  "computeEfficiencyRating [] = []"
| "computeEfficiencyRating (t0 # ts) =
     (let teams = t0 # ts;
          pts = minMax (pointsAllowed t0) (map pointsAllowed ts);
          yds = minMax (yardsAllowed t0) (map yardsAllowed ts);
          sck = minMax (sacks t0) (map sacks ts);
          itc = minMax (interceptions t0) (map interceptions ts);
          fum = minMax (fumbles t0) (map fumbles ts)
      in map (\<lambda>t. t\<lparr>dvoa :=
                js_div (Math_round (js_mul (score pts yds sck itc fum t) (Finite 10))) (Finite 10)\<rparr>)
           teams)"

section \<open>Upstream documents\<close>

text \<open>
  The documents are typed as the interfaces of the route declare them, with every field that
  the code reads defensively (\<open>?.\<close>, \<open>||\<close>, \<open>??\<close>, \<open>Array.isArray\<close>) an option; fields that
  the code never reads are left out. A numeric field that may be absent (\<open>undefined\<close>, \<open>null\<close>)
  is a \<^typ>\<open>number option\<close>.
\<close>

record ESPNStandingsStat =
  stat_name :: string
  stat_displayValue :: string
  stat_value :: "number option"
  stat_abbreviation :: "string option"
  stat_type :: "string option"

record ESPNTeam =
  espn_id :: string
  espn_abbreviation :: string
  espn_displayName :: string
  espn_logos :: "string list option"  \<comment> \<open>the \<open>href\<close> of each logo\<close>

record ESPNStandingsEntry =
  entry_team :: ESPNTeam
  entry_stats :: "ESPNStandingsStat list option"

record Conference =
  standings_entries :: "ESPNStandingsEntry list option"  \<comment> \<open>\<open>standings?.entries\<close>\<close>

record StandingsData =
  children :: "Conference list option"

record ESPNStatEntry =
  entry_name :: "string option"
  entry_value :: "number option"

record ESPNStatCategory =
  cat_name :: "string option"
  cat_stats :: "ESPNStatEntry list option"

datatype StatsField =
  StatsArray "ESPNStatCategory list"  \<comment> \<open>\<open>stats\<close> is an array of categories\<close>
| StatsObject "ESPNStatCategory list option"  \<comment> \<open>an object; \<open>categories\<close> when it is an array\<close>
| StatsOther

record StatsResults =
  opponent :: "ESPNStatCategory list option"  \<comment> \<open>\<open>Some\<close> when \<open>Array.isArray\<close> holds\<close>
  stats :: StatsField

record StatsData =
  data_results :: "StatsResults option"
  data_self :: StatsResults  \<comment> \<open>\<open>opponent\<close> and \<open>stats\<close> of the document itself\<close>

datatype 'a Fetched =
  Rejected  \<comment> \<open>\<open>fetch\<close> throws\<close>
| Response bool "'a option"  \<comment> \<open>\<open>res.ok\<close>, and what \<open>res.json()\<close> yields (\<open>None\<close>: it throws)\<close>

record Upstream =
  standings_response :: "StandingsData Fetched"
  statistics_response :: "string \<Rightarrow> StatsData Fetched"  \<comment> \<open>by URL\<close>

section \<open>Extraction from standings\<close>

record StandingsTeam =
  t_id :: string
  t_abbr :: string
  t_fullName :: string
  t_logo :: string
  t_pointsAllowed :: number
  t_gamesPlayed :: number

definition statMatches :: "string \<Rightarrow> ESPNStandingsStat \<Rightarrow> bool" where
  \<comment> \<open>The predicate \<open>getStat\<close> passes to \<open>find\<close>.\<close>
  "statMatches name s \<longleftrightarrow>
     stat_name s = name \<or> stat_abbreviation s = Some name \<or> stat_type s = Some name"

fun getStat :: "(string \<Rightarrow> number) \<Rightarrow> ESPNStandingsStat list \<Rightarrow> string list \<Rightarrow> number" where
  \<comment> \<open>\<open>parseFloat\<close> is the built-in, taken as a parameter.\<close>
  "getStat parseFloat sts [] = Finite 0"
| "getStat parseFloat sts (name # names) =
     (case find (statMatches name) sts of
        Some stat \<Rightarrow>
          or_num (stat_value stat) (or_num (Some (parseFloat (stat_displayValue stat))) (Finite 0))
      | None \<Rightarrow> getStat parseFloat sts names)"

definition standingsEntryTeam :: "(string \<Rightarrow> number) \<Rightarrow> ESPNStandingsEntry \<Rightarrow> StandingsTeam" where
  \<comment> \<open>The body of the inner loop of \<open>extractTeamsFromStandings\<close>: the record it pushes.\<close>
  "standingsEntryTeam parseFloat entry =
     (let tm = entry_team entry;
          sts = (case entry_stats entry of Some s \<Rightarrow> s | None \<Rightarrow> []);
          wins = getStat parseFloat sts [''wins'', ''W''];
          losses = getStat parseFloat sts [''losses'', ''L''];
          gamesPlayed = or_num (Some (js_add wins losses)) (Finite 17);
          pointsAllowed = getStat parseFloat sts [''pointsAllowed'', ''pointsAgainst'', ''PA'']
      in \<lparr>t_id = espn_id tm,
          t_abbr = espn_abbreviation tm,
          t_fullName = espn_displayName tm,
          t_logo = (case espn_logos tm of Some (href # _) \<Rightarrow> href | _ \<Rightarrow> ''''),
          t_pointsAllowed = pointsAllowed,
          t_gamesPlayed = gamesPlayed\<rparr>)"

definition extractTeamsFromStandings :: "(string \<Rightarrow> number) \<Rightarrow> StandingsData \<Rightarrow> StandingsTeam list" where
  "extractTeamsFromStandings parseFloat data =
     (case children data of
        None \<Rightarrow> []
      | Some conferences \<Rightarrow>
          concat (map (\<lambda>conference.
            case standings_entries conference of
              None \<Rightarrow> []
            | Some entries \<Rightarrow> map (standingsEntryTeam parseFloat) entries) conferences))"

section \<open>Per-team statistics\<close>

definition toLowerCase :: "string \<Rightarrow> string" where
  \<comment> \<open>ASCII letters only: the category and statistic names compared here are ASCII.\<close>
  "toLowerCase s =
     map (\<lambda>c. let n = (of_char c :: nat) in if 65 \<le> n \<and> n \<le> 90 then char_of (n + 32) else c) s"

definition findStat :: "ESPNStatCategory list \<Rightarrow> string \<Rightarrow> string \<Rightarrow> number" where
  "findStat categories catName statName =
     (case find (\<lambda>c. map_option toLowerCase (cat_name c) = Some (toLowerCase catName)) categories of
        None \<Rightarrow> Finite 0
      | Some cat \<Rightarrow>
          (case cat_stats cat of
             None \<Rightarrow> Finite 0
           | Some sts \<Rightarrow>
               (case find (\<lambda>s. map_option toLowerCase (entry_name s) = Some (toLowerCase statName)) sts of
                  None \<Rightarrow> Finite 0
                | Some stat \<Rightarrow> (case entry_value stat of Some v \<Rightarrow> v | None \<Rightarrow> Finite 0))))"

definition statisticsUrl :: "string \<Rightarrow> string" where
  "statisticsUrl tid =
     ''https://site.api.espn.com/apis/site/v2/sports/football/nfl/teams/'' @ tid @
     ''/statistics?season=2024''"

definition base_record :: "StandingsTeam \<Rightarrow> TeamDefenseStats" where
  \<comment> \<open>The \<open>base\<close> record as \<open>fetchTeamDetailedStats\<close> first builds it.\<close>
  "base_record tm =
     \<lparr>team = t_abbr tm,
      fullName = t_fullName tm,
      logo = t_logo tm,
      pointsAllowed = (if js_gt (t_gamesPlayed tm) (Finite 0)
                       then js_div (Math_round (js_mul (js_div (t_pointsAllowed tm) (t_gamesPlayed tm))
                                                  (Finite 10))) (Finite 10)
                       else Finite 0),
      yardsAllowed = Finite 0,
      passYardsAllowed = Finite 0,
      rushYardsAllowed = Finite 0,
      sacks = Finite 0,
      interceptions = Finite 0,
      fumbles = Finite 0,
      dvoa = Finite 0\<rparr>"

definition opponentCategories :: "StatsResults \<Rightarrow> ESPNStatCategory list" where
  "opponentCategories res = (case opponent res of Some cs \<Rightarrow> cs | None \<Rightarrow> [])"

definition teamCategories :: "StatsResults \<Rightarrow> ESPNStatCategory list" where
  "teamCategories res =
     (case stats res of
        StatsArray cs \<Rightarrow> cs
      | StatsObject (Some cs) \<Rightarrow> cs
      | _ \<Rightarrow> [])"

definition statsResults :: "StatsData \<Rightarrow> StatsResults" where
  \<comment> \<open>\<open>data.results || data\<close>\<close>
  "statsResults data = (case data_results data of Some r \<Rightarrow> r | None \<Rightarrow> data_self data)"

definition mergeStatistics :: "StandingsTeam \<Rightarrow> TeamDefenseStats \<Rightarrow> StatsData \<Rightarrow> TeamDefenseStats" where
  \<comment> \<open>The \<open>try\<close> block of \<open>fetchTeamDetailedStats\<close> from \<open>const results\<close> on: the assignments to
      \<open>base\<close>, in order.\<close>
  "mergeStatistics tm base data =
     (let res = statsResults data;
          oc = opponentCategories res;
          base1 =
            (if length oc > 0
             then (let totalYards = findStat oc ''rushing'' ''totalYards'';
                       passYards = findStat oc ''passing'' ''netPassingYards'';
                       rushYards = findStat oc ''rushing'' ''rushingYards''
                   in base
                      \<lparr>yardsAllowed :=
                         (if js_gt (t_gamesPlayed tm) (Finite 0)
                          then js_div (Math_round (js_mul (js_div totalYards (t_gamesPlayed tm))
                                                     (Finite 10))) (Finite 10)
                          else Finite 0),
                       passYardsAllowed :=
                         (if js_gt (t_gamesPlayed tm) (Finite 0)
                          then js_div (Math_round (js_mul (js_div passYards (t_gamesPlayed tm))
                                                     (Finite 10))) (Finite 10)
                          else Finite 0),
                       rushYardsAllowed :=
                         (if js_gt (t_gamesPlayed tm) (Finite 0)
                          then js_div (Math_round (js_mul (js_div rushYards (t_gamesPlayed tm))
                                                     (Finite 10))) (Finite 10)
                          else Finite 0)\<rparr>)
             else base);
          tc = teamCategories res
      in if length tc > 0
         then base1
              \<lparr>sacks := findStat tc ''defensive'' ''sacks'',
               interceptions := findStat tc ''defensiveInterceptions'' ''interceptions'',
               fumbles := findStat tc ''general'' ''fumblesForced''\<rparr>
         else base1)"

definition fetchTeamDetailedStats ::
  "(string \<Rightarrow> StatsData Fetched) \<Rightarrow> StandingsTeam \<Rightarrow> TeamDefenseStats \<times> string list" where
  \<comment> \<open>The record it resolves to, and the URLs it requested.\<close>
  "fetchTeamDetailedStats fetch tm =
     (let base = base_record tm;
          url = statisticsUrl (t_id tm)
      in (case fetch url of
            Rejected \<Rightarrow> base
          | Response ok body \<Rightarrow>
              if \<not> ok then base
              else (case body of
                      None \<Rightarrow> base
                    | Some data \<Rightarrow> mergeStatistics tm base data),
          [url]))"

section \<open>The route handler\<close>

datatype Envelope =
  Success (env_stats: "TeamDefenseStats list") (lastUpdated: string) (source: string)
| Failure (error: string) (env_stats: "TeamDefenseStats list")

record HttpResponse =
  status :: nat
  body :: Envelope

definition standingsUrl :: string where
  "standingsUrl =
     ''https://site.web.api.espn.com/apis/v2/sports/football/nfl/standings?season=2024&type=1''"

definition GET ::
  "(string \<Rightarrow> number) \<Rightarrow> Upstream \<Rightarrow> string \<Rightarrow> HttpResponse \<times> string list" where
  \<comment> \<open>\<open>now\<close> is what \<open>new Date().toISOString()\<close> reads. The result is the response and the URLs
      requested, in the order the requests are issued.\<close>
  "GET parseFloat w now =
     (case standings_response w of
        Rejected \<Rightarrow>
          (\<lparr>status = 500, body = Failure ''Failed to fetch NFL statistics'' []\<rparr>, [standingsUrl])
      | Response ok standingsBody \<Rightarrow>
          if \<not> ok
          then (\<lparr>status = 500, body = Failure ''Failed to fetch standings'' []\<rparr>, [standingsUrl])
          else (case standingsBody of
                  None \<Rightarrow>
                    (\<lparr>status = 500, body = Failure ''Failed to fetch NFL statistics'' []\<rparr>,
                     [standingsUrl])
                | Some standingsData \<Rightarrow>
                    (let teams = extractTeamsFromStandings parseFloat standingsData
                     in if length teams = 0
                        then (\<lparr>status = 500, body = Failure ''No teams found in standings'' []\<rparr>,
                              [standingsUrl])
                        else (let fetched = map (fetchTeamDetailedStats (statistics_response w)) teams;
                                  detailedStats = computeEfficiencyRating (map fst fetched)
                              in (\<lparr>status = 200,
                                   body = Success detailedStats now ''ESPN API - 2024 Season''\<rparr>,
                                  standingsUrl # concat (map snd fetched))))))"

section \<open>Notions used in the statements\<close>

definition between :: "real \<Rightarrow> real \<Rightarrow> number \<Rightarrow> bool" where
  \<comment> \<open>A finite number in the closed interval from \<open>a\<close> to \<open>b\<close>.\<close>
  "between a b n = (case n of Finite y \<Rightarrow> a \<le> y \<and> y \<le> b | _ \<Rightarrow> False)"

definition isFinite :: "number \<Rightarrow> bool" where
  "isFinite n = (case n of Finite y \<Rightarrow> True | _ \<Rightarrow> False)"

definition isDouble :: "number \<Rightarrow> bool" where
  \<comment> \<open>A finite number whose value is a double: rounding leaves it as it is.\<close>
  "isDouble n = (case n of Finite x \<Rightarrow> fl x = Finite x | _ \<Rightarrow> False)"

definition finiteSpread :: "number list \<Rightarrow> bool" where
  \<comment> \<open>The values of one metric over a team set: each is a finite double, and the largest
      minus the smallest does not overflow.\<close>
  "finiteSpread vs \<longleftrightarrow>
     list_all isDouble vs \<and>
     (case vs of
        [] \<Rightarrow> True
      | a # arr \<Rightarrow> isFinite (js_sub (mm_max (minMax a arr)) (mm_min (minMax a arr))))"

definition fetchFailed :: "'a Fetched \<Rightarrow> bool" where
  \<comment> \<open>The request throws, answers with a non-success status, or its body does not parse.\<close>
  "fetchFailed r = (case r of Rejected \<Rightarrow> True | Response ok b \<Rightarrow> \<not> ok \<or> b = None)"

definition roundedTo1Decimal :: "real \<Rightarrow> number \<Rightarrow> bool" where
  \<comment> \<open>\<open>r\<close> is \<open>x\<close> rounded to one decimal in double arithmetic: the double nearest to \<open>k / 10\<close>
      for an integer \<open>k\<close> that lies within one half of \<open>10 x\<close>, up to the rounding error of the
      quotient and of the product (a relative \<open>2\<^bsup>-48\<^esup>\<close> of \<open>x\<close>, and \<open>2\<^bsup>-1070\<^esup>\<close>).\<close>
  "roundedTo1Decimal x r =
     (let t = 1 / 2 + \<bar>x\<bar> * pow2 (- 48) + pow2 (- 1070)
      in list_ex (\<lambda>k. r = fl (of_int k / 10) \<and> \<bar>of_int k - 10 * x\<bar> \<le> t)
           [\<lfloor>10 * x - t\<rfloor> .. \<lceil>10 * x + t\<rceil>])"

definition standingsEntries :: "StandingsData \<Rightarrow> ESPNStandingsEntry list" where
  \<comment> \<open>The entries of a standings document, group by group, in document order.\<close>
  "standingsEntries data =
     (case children data of
        None \<Rightarrow> []
      | Some conferences \<Rightarrow>
          concat (map (\<lambda>c. case standings_entries c of None \<Rightarrow> [] | Some es \<Rightarrow> es) conferences))"

definition withoutLastUpdated :: "HttpResponse \<Rightarrow> HttpResponse" where
  \<comment> \<open>The response with the \<open>lastUpdated\<close> field of its body blanked.\<close>
  "withoutLastUpdated r =
     r\<lparr>body := (case body r of Success s l src \<Rightarrow> Success s [] src | Failure e s \<Rightarrow> Failure e s)\<rparr>"

section \<open>Sample inputs\<close>

text \<open>Concrete records and documents on which the theorems below are instantiated.\<close>

definition sample_A :: TeamDefenseStats where
  "sample_A = \<lparr>team = ''PHI'', fullName = ''Philadelphia Eagles'', logo = '''',
     pointsAllowed = Finite 17, yardsAllowed = Finite 300, passYardsAllowed = Finite 180,
     rushYardsAllowed = Finite 120, sacks = Finite 40, interceptions = Finite 14,
     fumbles = Finite 8, dvoa = Finite 0\<rparr>"

definition sample_B :: TeamDefenseStats where
  "sample_B = \<lparr>team = ''DAL'', fullName = ''Dallas Cowboys'', logo = '''',
     pointsAllowed = Finite 25, yardsAllowed = Finite 350, passYardsAllowed = Finite 230,
     rushYardsAllowed = Finite 120, sacks = Finite 30, interceptions = Finite 10,
     fumbles = Finite 8, dvoa = Finite 0\<rparr>"

definition sample_C :: TeamDefenseStats where
  "sample_C = \<lparr>team = ''NYG'', fullName = ''New York Giants'', logo = '''',
     pointsAllowed = Finite 21, yardsAllowed = Finite 325, passYardsAllowed = Finite 200,
     rushYardsAllowed = Finite 125, sacks = Finite 35, interceptions = Finite 12,
     fumbles = Finite 4, dvoa = Finite 0\<rparr>"

definition sample_high :: TeamDefenseStats where
  \<comment> \<open>\<open>pointsAllowed\<close> is the double \<open>2\<^bsup>1023\<^esup>\<close>, about \<open>8.99e307\<close>.\<close>
  "sample_high = sample_A\<lparr>pointsAllowed := Finite (2 ^ 1023)\<rparr>"

definition sample_low :: TeamDefenseStats where
  "sample_low = sample_A\<lparr>pointsAllowed := Finite (- (2 ^ 1023))\<rparr>"

definition sample_stat :: "string \<Rightarrow> string \<Rightarrow> real \<Rightarrow> string \<Rightarrow> ESPNStandingsStat" where
  "sample_stat n a v d =
     \<lparr>stat_name = n, stat_displayValue = d, stat_value = Some (Finite v),
      stat_abbreviation = Some a, stat_type = None\<rparr>"

definition sample_parseFloat :: "string \<Rightarrow> number" where
  \<comment> \<open>What \<open>parseFloat\<close> returns on the display values of the sample documents.\<close>
  "sample_parseFloat s =
     (if s = ''310'' then Finite 310 else if s = ''0'' then Finite 0 else NaN)"

definition sample_PHI :: ESPNStandingsEntry where
  "sample_PHI =
     \<lparr>entry_team = \<lparr>espn_id = ''21'', espn_abbreviation = ''PHI'',
                     espn_displayName = ''Philadelphia Eagles'',
                     espn_logos = Some [''https://a.espncdn.com/i/teamlogos/nfl/500/phi.png'']\<rparr>,
      entry_stats = Some [sample_stat ''wins'' ''W'' 14 ''14'',
                          sample_stat ''losses'' ''L'' 3 ''3'',
                          sample_stat ''pointsAgainst'' ''PA'' 303 ''303'']\<rparr>"

definition sample_DAL :: ESPNStandingsEntry where
  "sample_DAL =
     \<lparr>entry_team = \<lparr>espn_id = ''6'', espn_abbreviation = ''DAL'',
                     espn_displayName = ''Dallas Cowboys'', espn_logos = None\<rparr>,
      entry_stats = Some [sample_stat ''wins'' ''W'' 7 ''7'',
                          sample_stat ''losses'' ''L'' 10 ''10'',
                          sample_stat ''pointsAgainst'' ''PA'' 340 ''340'']\<rparr>"

definition sample_BUF :: ESPNStandingsEntry where
  "sample_BUF =
     \<lparr>entry_team = \<lparr>espn_id = ''2'', espn_abbreviation = ''BUF'',
                     espn_displayName = ''Buffalo Bills'', espn_logos = Some []\<rparr>,
      entry_stats = Some [sample_stat ''wins'' ''W'' 13 ''13'',
                          sample_stat ''losses'' ''L'' 4 ''4'',
                          sample_stat ''pointsAgainst'' ''PA'' 368 ''368'']\<rparr>"

definition sample_negative :: ESPNStandingsEntry where
  \<comment> \<open>An entry whose wins figure is negative.\<close>
  "sample_negative =
     \<lparr>entry_team = \<lparr>espn_id = ''20'', espn_abbreviation = ''NYJ'',
                     espn_displayName = ''New York Jets'', espn_logos = None\<rparr>,
      entry_stats = Some [sample_stat ''wins'' ''W'' (- 5) ''-5'',
                          sample_stat ''losses'' ''L'' 2 ''2'',
                          sample_stat ''pointsAgainst'' ''PA'' 300 ''300'']\<rparr>"

definition sample_infinite :: ESPNStandingsEntry where
  \<comment> \<open>An entry whose wins and points against exceed the double range: \<open>JSON.parse\<close> reads
      \<open>1e999\<close> as \<open>Infinity\<close>.\<close>
  "sample_infinite =
     \<lparr>entry_team = \<lparr>espn_id = ''33'', espn_abbreviation = ''BAL'',
                     espn_displayName = ''Baltimore Ravens'', espn_logos = None\<rparr>,
      entry_stats = Some [\<lparr>stat_name = ''wins'', stat_displayValue = ''1e999'',
                            stat_value = Some PInf, stat_abbreviation = Some ''W'',
                            stat_type = None\<rparr>,
                          sample_stat ''losses'' ''L'' 4 ''4'',
                          \<lparr>stat_name = ''pointsAgainst'', stat_displayValue = ''1e999'',
                            stat_value = Some PInf, stat_abbreviation = Some ''PA'',
                            stat_type = None\<rparr>]\<rparr>"

definition sample_nan :: TeamDefenseStats where
  \<comment> \<open>The record of that entry before statistics are merged: \<open>pointsAllowed\<close> is infinity over
      infinity.\<close>
  "sample_nan = base_record (standingsEntryTeam sample_parseFloat sample_infinite)"

definition sample_standings :: StandingsData where
  "sample_standings =
     \<lparr>children = Some [\<lparr>standings_entries = Some [sample_BUF]\<rparr>,
                        \<lparr>standings_entries = None\<rparr>,
                        \<lparr>standings_entries = Some [sample_PHI, sample_DAL]\<rparr>]\<rparr>"

definition sample_category :: "string \<Rightarrow> (string \<times> real) list \<Rightarrow> ESPNStatCategory" where
  "sample_category n vs =
     \<lparr>cat_name = Some n,
      cat_stats = Some (map (\<lambda>(k, v). \<lparr>entry_name = Some k, entry_value = Some (Finite v)\<rparr>) vs)\<rparr>"

definition sample_PHI_statistics :: StatsData where
  "sample_PHI_statistics =
     \<lparr>data_results = Some
        \<lparr>opponent = Some [sample_category ''passing'' [(''netPassingYards'', 2961)],
                          sample_category ''rushing'' [(''rushingYards'', 1771), (''totalYards'', 4732)]],
         stats = StatsObject (Some [sample_category ''defensive'' [(''sacks'', 41)],
                                    sample_category ''defensiveInterceptions'' [(''interceptions'', 13)],
                                    sample_category ''general'' [(''fumblesForced'', 9)]])\<rparr>,
      data_self = \<lparr>opponent = None, stats = StatsOther\<rparr>\<rparr>"

definition sample_BUF_statistics :: StatsData where
  "sample_BUF_statistics =
     \<lparr>data_results = None,
      data_self =
        \<lparr>opponent = Some [sample_category ''Rushing'' [(''rushingYards'', 1960), (''totalYards'', 5806)],
                          sample_category ''Passing'' [(''netPassingYards'', 3846)]],
         stats = StatsArray [sample_category ''defensive'' [(''sacks'', 39)],
                             sample_category ''defensiveInterceptions'' [(''interceptions'', 16)],
                             sample_category ''general'' [(''fumblesForced'', 11)]]\<rparr>\<rparr>"

definition sample_upstream :: Upstream where
  \<comment> \<open>The statistics request of the team with id 6 (Dallas) throws.\<close>
  "sample_upstream =
     \<lparr>standings_response = Response True (Some sample_standings),
      statistics_response = (\<lambda>url.
        if url = statisticsUrl ''21'' then Response True (Some sample_PHI_statistics)
        else if url = statisticsUrl ''2'' then Response True (Some sample_BUF_statistics)
        else Rejected)\<rparr>"

definition sample_duplicate_upstream :: Upstream where
  \<comment> \<open>A standings document that lists Philadelphia in two groups.\<close>
  "sample_duplicate_upstream =
     \<lparr>standings_response = Response True (Some
        \<lparr>children = Some [\<lparr>standings_entries = Some [sample_PHI]\<rparr>,
                           \<lparr>standings_entries = Some [sample_PHI, sample_DAL]\<rparr>]\<rparr>),
      statistics_response = (\<lambda>url. Rejected)\<rparr>"

definition sample_BUF_team :: StandingsTeam where
  "sample_BUF_team =
     \<lparr>t_id = ''2'', t_abbr = ''BUF'', t_fullName = ''Buffalo Bills'', t_logo = '''',
      t_pointsAllowed = Finite 368, t_gamesPlayed = Finite 17\<rparr>"

definition sample_PHI_team :: StandingsTeam where
  "sample_PHI_team =
     \<lparr>t_id = ''21'', t_abbr = ''PHI'', t_fullName = ''Philadelphia Eagles'',
      t_logo = ''https://a.espncdn.com/i/teamlogos/nfl/500/phi.png'',
      t_pointsAllowed = Finite 303, t_gamesPlayed = Finite 17\<rparr>"

definition sample_DAL_team :: StandingsTeam where
  "sample_DAL_team =
     \<lparr>t_id = ''6'', t_abbr = ''DAL'', t_fullName = ''Dallas Cowboys'', t_logo = '''',
      t_pointsAllowed = Finite 340, t_gamesPlayed = Finite 17\<rparr>"

definition sample_negative_team :: StandingsTeam where
  "sample_negative_team =
     \<lparr>t_id = ''20'', t_abbr = ''NYJ'', t_fullName = ''New York Jets'', t_logo = '''',
      t_pointsAllowed = Finite 300, t_gamesPlayed = Finite (- 3)\<rparr>"

definition sample_pointsAgainst :: ESPNStandingsStat where
  "sample_pointsAgainst =
     \<lparr>stat_name = ''pointsAgainst'', stat_displayValue = ''310'', stat_value = Some (Finite 310),
      stat_abbreviation = None, stat_type = None\<rparr>"

definition sample_unparsed :: ESPNStandingsStat where
  "sample_unparsed =
     \<lparr>stat_name = ''streak'', stat_displayValue = ''W2'', stat_value = None,
      stat_abbreviation = Some ''STRK'', stat_type = None\<rparr>"

definition sample_now :: string where
  "sample_now = ''2025-01-06T12:00:00.000Z''"

definition sample_later :: string where
  "sample_later = ''2025-01-06T12:00:05.250Z''"

section \<open>Rounding: auxiliary facts\<close>

lemma pow2_powr: "pow2 k = 2 powr (of_int k)"
proof (cases "0 \<le> k")
  case True
  then show ?thesis by (simp add: pow2_def powr_realpow [symmetric])
next
  case False
  then have "pow2 k = 1 / 2 ^ nat (- k)" by (simp add: pow2_def)
  also have "\<dots> = 1 / 2 powr (real (nat (- k)))" by (simp add: powr_realpow)
  also have "\<dots> = 2 powr (of_int k)" using False by (simp add: powr_minus_divide [symmetric])
  finally show ?thesis .
qed

lemma pow2_pos: "0 < pow2 k"
  by (simp add: pow2_powr)

lemma pow2_add: "pow2 (j + k) = pow2 j * pow2 k"
  by (simp add: pow2_powr powr_add)

lemma pow2_mono: "j \<le> k \<Longrightarrow> pow2 j \<le> pow2 k"
  by (simp add: pow2_powr)

lemma pow2_less: "j < k \<Longrightarrow> pow2 j < pow2 k"
  by (simp add: pow2_powr)

lemma pow2_nat: "pow2 (int n) = 2 ^ n"
  by (simp add: pow2_def)

lemma pow2_0: "pow2 0 = 1"
  by (simp add: pow2_def)

lemma pow2_diff_int: "j \<le> k \<Longrightarrow> pow2 k / pow2 j = of_int (2 ^ nat (k - j))"
proof -
  assume "j \<le> k"
  then have "pow2 k = pow2 (k - j) * pow2 j" using pow2_add [of "k - j" j] by simp
  moreover have "pow2 (k - j) = 2 ^ nat (k - j)" using \<open>j \<le> k\<close> by (simp add: pow2_def)
  ultimately show ?thesis using pow2_pos [of j] by simp
qed

lemma expo_bounds:
  assumes "x \<noteq> 0"
  shows "pow2 (expo x) \<le> \<bar>x\<bar> \<and> \<bar>x\<bar> < pow2 (expo x + 1)"
proof (cases "1 \<le> \<bar>x\<bar>")
  case True
  define n where "n = \<lfloor>\<bar>x\<bar>\<rfloor>"
  have n: "0 < n" using True by (simp add: n_def)
  have e: "expo x = bitlen n - 1" using True by (simp add: expo_def n_def)
  from bitlen_bounds [OF n] have lo: "2 ^ nat (bitlen n - 1) \<le> n" and hi: "n < 2 ^ nat (bitlen n)"
    by simp_all
  have b1: "1 \<le> bitlen n" using n by (simp add: bitlen_alt_def)
  have "pow2 (bitlen n - 1) = of_int (2 ^ nat (bitlen n - 1))" using b1 by (simp add: pow2_def)
  also have "\<dots> \<le> of_int n" using lo by (simp only: of_int_le_iff)
  also have "\<dots> \<le> \<bar>x\<bar>" by (simp add: n_def)
  finally have L: "pow2 (expo x) \<le> \<bar>x\<bar>" by (simp add: e)
  from hi have "n + 1 \<le> 2 ^ nat (bitlen n)" by simp
  then have "(of_int (n + 1) :: real) \<le> of_int (2 ^ nat (bitlen n))" by (simp only: of_int_le_iff)
  moreover have "\<bar>x\<bar> < of_int (n + 1)" unfolding n_def by linarith
  moreover have "pow2 (bitlen n) = of_int (2 ^ nat (bitlen n))" using b1 by (simp add: pow2_def)
  ultimately have "\<bar>x\<bar> < pow2 (expo x + 1)" by (simp add: e)
  with L show ?thesis by simp
next
  case False
  define y where "y = 1 / \<bar>x\<bar>"
  have xp: "0 < \<bar>x\<bar>" using assms by simp
  have y1: "1 < y" using False xp by (simp add: y_def)
  define n where "n = \<lceil>y\<rceil> - 1"
  have n: "0 < n" using y1 unfolding n_def by linarith
  have e: "expo x = - bitlen n" using False by (simp add: expo_def n_def y_def)
  from bitlen_bounds [OF n] have lo: "2 ^ nat (bitlen n - 1) \<le> n" and hi: "n < 2 ^ nat (bitlen n)"
    by simp_all
  have b1: "1 \<le> bitlen n" using n by (simp add: bitlen_alt_def)
  have yn: "of_int n < y" "y \<le> of_int n + 1" unfolding n_def by linarith+
  from hi have "n + 1 \<le> 2 ^ nat (bitlen n)" by simp
  then have "(of_int (n + 1) :: real) \<le> of_int (2 ^ nat (bitlen n))" by (simp only: of_int_le_iff)
  with yn have "y \<le> 2 ^ nat (bitlen n)" by simp
  then have "1 / \<bar>x\<bar> \<le> 2 ^ nat (bitlen n)" by (simp add: y_def)
  then have "1 / 2 ^ nat (bitlen n) \<le> \<bar>x\<bar>" using xp
    by (simp add: field_simps)
  moreover have "pow2 (- bitlen n) = 1 / 2 ^ nat (bitlen n)" using b1 by (simp add: pow2_def)
  ultimately have L: "pow2 (expo x) \<le> \<bar>x\<bar>" by (simp add: e)
  from lo have "(of_int (2 ^ nat (bitlen n - 1)) :: real) \<le> of_int n" by (simp only: of_int_le_iff)
  then have "(2::real) ^ nat (bitlen n - 1) \<le> of_int n" by simp
  with yn(1) have "2 ^ nat (bitlen n - 1) < y" by linarith
  then have "2 ^ nat (bitlen n - 1) < 1 / \<bar>x\<bar>" by (simp add: y_def)
  then have "\<bar>x\<bar> < 1 / 2 ^ nat (bitlen n - 1)" using xp
    by (simp add: field_simps)
  moreover have "pow2 (- bitlen n + 1) = 1 / 2 ^ nat (bitlen n - 1)"
  proof (cases "bitlen n = 1")
    case True
    then show ?thesis by (simp add: pow2_def)
  next
    case False
    with b1 have "- bitlen n + 1 < 0" by simp
    moreover have "nat (- (- bitlen n + 1)) = nat (bitlen n - 1)" by simp
    ultimately show ?thesis by (simp add: pow2_def)
  qed
  ultimately have "\<bar>x\<bar> < pow2 (expo x + 1)" by (simp add: e)
  with L show ?thesis by simp
qed

lemma expo_unique:
  assumes "pow2 e \<le> \<bar>x\<bar>" and "\<bar>x\<bar> < pow2 (e + 1)"
  shows "expo x = e"
proof -
  have x: "x \<noteq> 0" using assms(1) pow2_pos [of e] by auto
  from expo_bounds [OF x] have b: "pow2 (expo x) \<le> \<bar>x\<bar>" "\<bar>x\<bar> < pow2 (expo x + 1)" by simp_all
  have "\<not> expo x < e"
  proof
    assume "expo x < e"
    then have "pow2 (expo x + 1) \<le> pow2 e" by (intro pow2_mono) simp
    with b(2) assms(1) show False by simp
  qed
  moreover have "\<not> e < expo x"
  proof
    assume "e < expo x"
    then have "pow2 (e + 1) \<le> pow2 (expo x)" by (intro pow2_mono) simp
    with b(1) assms(2) show False by simp
  qed
  ultimately show ?thesis by simp
qed

lemma ulp_exp_ge: "- 1074 \<le> ulp_exp x"
  by (simp add: ulp_exp_def)

lemma ulp_exp_abs: "ulp_exp (- x) = ulp_exp x"
  by (simp add: ulp_exp_def expo_def)

lemma ulp_upper: "\<bar>x\<bar> < pow2 (ulp_exp x + 53)"
proof (cases "x = 0")
  case True
  then show ?thesis by (simp add: pow2_pos)
next
  case False
  from expo_bounds [OF False] have "\<bar>x\<bar> < pow2 (expo x + 1)" by simp
  also have "\<dots> \<le> pow2 (ulp_exp x + 53)"
    using False by (intro pow2_mono) (simp add: ulp_exp_def)
  finally show ?thesis .
qed

lemma ulp_lower: "- 1074 < ulp_exp x \<Longrightarrow> pow2 (ulp_exp x + 52) \<le> \<bar>x\<bar>"
proof -
  assume a: "- 1074 < ulp_exp x"
  then have x: "x \<noteq> 0" by (auto simp: ulp_exp_def)
  with a have "ulp_exp x = expo x - 52" by (simp add: ulp_exp_def max_def split: if_splits)
  with expo_bounds [OF x] show ?thesis by simp
qed

lemma ulp_exp_mono:
  assumes "\<bar>x\<bar> \<le> \<bar>y\<bar>"
  shows "ulp_exp x \<le> ulp_exp y"
proof (rule ccontr)
  assume "\<not> ulp_exp x \<le> ulp_exp y"
  then have lt: "ulp_exp y < ulp_exp x" by simp
  with ulp_exp_ge [of y] have "- 1074 < ulp_exp x" by simp
  then have "pow2 (ulp_exp x + 52) \<le> \<bar>x\<bar>" by (rule ulp_lower)
  moreover have "pow2 (ulp_exp y + 53) \<le> pow2 (ulp_exp x + 52)"
    using lt by (intro pow2_mono) simp
  ultimately have "pow2 (ulp_exp y + 53) \<le> \<bar>y\<bar>" using assms by simp
  with ulp_upper [of y] show False by simp
qed

lemma round_even_cases: "round_even q = \<lfloor>q\<rfloor> \<or> round_even q = \<lfloor>q\<rfloor> + 1"
  by (simp add: round_even_def Let_def)

lemma round_even_near: "\<bar>of_int (round_even q) - q\<bar> \<le> 1 / 2"
  unfolding round_even_def Let_def by (auto split: if_splits)

lemma round_even_of_int: "round_even (of_int n) = n"
  by (simp add: round_even_def Let_def)

lemma round_even_mono:
  assumes "p \<le> q"
  shows "round_even p \<le> round_even q"
proof (cases "\<lfloor>p\<rfloor> = \<lfloor>q\<rfloor>")
  case True
  with assms show ?thesis by (auto simp: round_even_def Let_def)
next
  case False
  with assms have "\<lfloor>p\<rfloor> < \<lfloor>q\<rfloor>" using floor_mono [OF assms] by simp
  moreover have "round_even p \<le> \<lfloor>p\<rfloor> + 1" using round_even_cases [of p] by auto
  moreover have "\<lfloor>q\<rfloor> \<le> round_even q" using round_even_cases [of q] by auto
  ultimately show ?thesis by simp
qed

lemma round_even_minus: "round_even (- q) = - round_even q"
proof (cases "of_int \<lfloor>q\<rfloor> = q")
  case True
  then obtain n where "q = of_int n" by metis
  then show ?thesis using round_even_of_int [of "- n"] round_even_of_int [of n] by simp
next
  case False
  then have f: "\<lfloor>- q\<rfloor> = - \<lfloor>q\<rfloor> - 1"
    by (metis ceiling_altdef ceiling_def diff_minus_eq_add minus_add_distrib minus_minus uminus_add_conv_diff)
  show ?thesis
    unfolding round_even_def Let_def f using False by (auto split: if_splits)
qed

lemma rnd_minus: "rnd (- x) = - rnd x"
  by (simp add: rnd_def ulp_exp_abs round_even_minus)

lemma rnd_0: "rnd 0 = 0"
  by (simp add: rnd_def round_even_def)

lemma rnd_nonneg: "0 \<le> x \<Longrightarrow> 0 \<le> rnd x"
proof -
  assume "0 \<le> x"
  then have "0 \<le> x / pow2 (ulp_exp x)" using pow2_pos [of "ulp_exp x"] by simp
  then have "round_even 0 \<le> round_even (x / pow2 (ulp_exp x))" by (rule round_even_mono)
  then have "0 \<le> round_even (x / pow2 (ulp_exp x))" using round_even_of_int [of 0] by simp
  then show ?thesis using pow2_pos [of "ulp_exp x"] by (simp add: rnd_def)
qed

lemma pow2_shift: "pow2 (k + int n) = of_int (2 ^ n) * pow2 k"
  using pow2_add [of "int n" k] by (simp add: pow2_nat add.commute)

lemma rnd_upper: "0 \<le> x \<Longrightarrow> rnd x \<le> pow2 (ulp_exp x + 53)"
proof -
  assume "0 \<le> x"
  let ?u = "pow2 (ulp_exp x)"
  define N :: int where "N = 2 ^ 53"
  have e: "pow2 (ulp_exp x + 53) = of_int N * ?u"
    using pow2_shift [of "ulp_exp x" 53] by (simp add: N_def)
  have "x < of_int N * ?u" using ulp_upper [of x] \<open>0 \<le> x\<close> by (simp add: e)
  then have "x / ?u \<le> of_int N" using pow2_pos [of "ulp_exp x"] by (simp add: field_simps)
  then have "round_even (x / ?u) \<le> round_even (of_int N)" by (rule round_even_mono)
  then have "round_even (x / ?u) \<le> N" by (simp only: round_even_of_int)
  then have "(of_int (round_even (x / ?u)) :: real) \<le> of_int N" by (simp only: of_int_le_iff)
  then have "of_int (round_even (x / ?u)) * ?u \<le> of_int N * ?u"
    using pow2_pos [of "ulp_exp x"] by (intro mult_right_mono) simp_all
  then show ?thesis by (simp only: rnd_def e)
qed

lemma rnd_lower: "0 \<le> x \<Longrightarrow> - 1074 < ulp_exp x \<Longrightarrow> pow2 (ulp_exp x + 52) \<le> rnd x"
proof -
  assume "0 \<le> x" and k: "- 1074 < ulp_exp x"
  let ?u = "pow2 (ulp_exp x)"
  define N :: int where "N = 2 ^ 52"
  have e: "pow2 (ulp_exp x + 52) = of_int N * ?u"
    using pow2_shift [of "ulp_exp x" 52] by (simp add: N_def)
  have "of_int N * ?u \<le> x" using ulp_lower [OF k] \<open>0 \<le> x\<close> by (simp add: e)
  then have "of_int N \<le> x / ?u" using pow2_pos [of "ulp_exp x"] by (simp add: field_simps)
  then have "round_even (of_int N) \<le> round_even (x / ?u)" by (rule round_even_mono)
  then have "N \<le> round_even (x / ?u)" by (simp only: round_even_of_int)
  then have "(of_int N :: real) \<le> of_int (round_even (x / ?u))" by (simp only: of_int_le_iff)
  then have "of_int N * ?u \<le> of_int (round_even (x / ?u)) * ?u"
    using pow2_pos [of "ulp_exp x"] by (intro mult_right_mono) simp_all
  then show ?thesis by (simp only: rnd_def e)
qed

lemma rnd_mono_nonneg:
  assumes "0 \<le> x" and "x \<le> y"
  shows "rnd x \<le> rnd y"
proof (cases "ulp_exp x = ulp_exp y")
  case True
  have "x / pow2 (ulp_exp y) \<le> y / pow2 (ulp_exp y)"
    using assms pow2_pos [of "ulp_exp y"] by (simp add: divide_right_mono)
  then have "round_even (x / pow2 (ulp_exp y)) \<le> round_even (y / pow2 (ulp_exp y))"
    by (rule round_even_mono)
  then have "(of_int (round_even (x / pow2 (ulp_exp y))) :: real) \<le>
      of_int (round_even (y / pow2 (ulp_exp y)))" by (simp only: of_int_le_iff)
  then show ?thesis using pow2_pos [of "ulp_exp y"] by (simp add: rnd_def True)
next
  case False
  have "ulp_exp x \<le> ulp_exp y" using assms by (intro ulp_exp_mono) simp
  with False have lt: "ulp_exp x < ulp_exp y" by simp
  with ulp_exp_ge [of x] have k: "- 1074 < ulp_exp y" by simp
  have "rnd x \<le> pow2 (ulp_exp x + 53)" using assms(1) by (rule rnd_upper)
  also have "\<dots> \<le> pow2 (ulp_exp y + 52)" using lt by (intro pow2_mono) simp
  also have "\<dots> \<le> rnd y" using assms k by (intro rnd_lower) simp_all
  finally show ?thesis .
qed

lemma rnd_mono:
  assumes "x \<le> y"
  shows "rnd x \<le> rnd y"
proof (cases "0 \<le> x")
  case True
  then show ?thesis using assms by (rule rnd_mono_nonneg)
next
  case False
  show ?thesis
  proof (cases "0 \<le> y")
    case True
    have "rnd x = - rnd (- x)" using rnd_minus [of x] by simp
    moreover have "0 \<le> rnd (- x)" using False by (intro rnd_nonneg) simp
    moreover have "0 \<le> rnd y" using True by (rule rnd_nonneg)
    ultimately show ?thesis by simp
  next
    case False
    then have "rnd (- y) \<le> rnd (- x)" using assms by (intro rnd_mono_nonneg) simp_all
    then show ?thesis by (simp add: rnd_minus)
  qed
qed

lemma rnd_exact:
  assumes "x = of_int m * pow2 j" and "\<bar>m\<bar> < 2 ^ 53" and "- 1074 \<le> j"
  shows "rnd x = x"
proof (cases "x = 0")
  case True
  then show ?thesis by (simp add: rnd_0)
next
  case False
  let ?k = "ulp_exp x"
  have kj: "?k \<le> j"
  proof (rule ccontr)
    assume "\<not> ?k \<le> j"
    then have lt: "j < ?k" by simp
    with assms(3) have "- 1074 < ?k" by simp
    then have "pow2 (?k + 52) \<le> \<bar>x\<bar>" by (rule ulp_lower)
    moreover have "pow2 (j + 53) \<le> pow2 (?k + 52)" using lt by (intro pow2_mono) simp
    moreover have "\<bar>x\<bar> < pow2 (j + 53)"
    proof -
      define N :: int where "N = 2 ^ 53"
      have e: "pow2 (j + 53) = of_int N * pow2 j"
        using pow2_shift [of j 53] by (simp add: N_def)
      have "\<bar>m\<bar> < N" using assms(2) by (simp add: N_def)
      then have "(of_int \<bar>m\<bar> :: real) < of_int N" by (simp only: of_int_less_iff)
      then have "of_int \<bar>m\<bar> * pow2 j < of_int N * pow2 j"
        using pow2_pos [of j] by (intro mult_strict_right_mono) simp_all
      moreover have "\<bar>x\<bar> = of_int \<bar>m\<bar> * pow2 j"
        using pow2_pos [of j] by (simp add: assms(1) abs_mult)
      ultimately show ?thesis by (simp only: e)
    qed
    ultimately show False by simp
  qed
  have "x / pow2 ?k = of_int m * (pow2 j / pow2 ?k)" by (simp add: assms(1))
  also have "\<dots> = of_int (m * 2 ^ nat (j - ?k))" by (simp add: pow2_diff_int [OF kj])
  finally have q: "x / pow2 ?k = of_int (m * 2 ^ nat (j - ?k))" .
  have "rnd x = of_int (round_even (x / pow2 ?k)) * pow2 ?k" by (simp add: rnd_def)
  also have "\<dots> = (x / pow2 ?k) * pow2 ?k" unfolding q round_even_of_int ..
  also have "\<dots> = x" using pow2_pos [of ?k] by simp
  finally show ?thesis .
qed

lemma rnd_of_int: "\<bar>m\<bar> < 2 ^ 53 \<Longrightarrow> rnd (of_int m) = of_int m"
  using rnd_exact [of "of_int m" m 0] by (simp add: pow2_0)

lemma rnd_multiple: "\<exists>m::int. rnd x = of_int m * pow2 (- 1074)"
proof -
  let ?k = "ulp_exp x"
  have "pow2 ?k = of_int (2 ^ nat (?k + 1074)) * pow2 (- 1074)"
    using pow2_diff_int [of "- 1074" ?k] ulp_exp_ge [of x] pow2_pos [of "- 1074"]
    by (simp add: field_simps)
  then have "rnd x = of_int (round_even (x / pow2 ?k) * 2 ^ nat (?k + 1074)) * pow2 (- 1074)"
    by (simp add: rnd_def)
  then show ?thesis by blast
qed

lemma rnd_error: "\<bar>rnd x - x\<bar> \<le> pow2 (ulp_exp x) / 2"
proof -
  let ?u = "pow2 (ulp_exp x)"
  have "rnd x - x = (of_int (round_even (x / ?u)) - x / ?u) * ?u"
    using pow2_pos [of "ulp_exp x"] by (simp add: rnd_def left_diff_distrib)
  then have "\<bar>rnd x - x\<bar> = \<bar>of_int (round_even (x / ?u)) - x / ?u\<bar> * ?u"
    using pow2_pos [of "ulp_exp x"] by (simp add: abs_mult)
  also have "\<dots> \<le> (1 / 2) * ?u"
    using round_even_near [of "x / ?u"] pow2_pos [of "ulp_exp x"]
    by (intro mult_right_mono) simp_all
  finally show ?thesis by simp
qed

lemma expo_overflow_iff:
  assumes "y \<noteq> 0"
  shows "1024 \<le> expo y \<longleftrightarrow> pow2 1024 \<le> \<bar>y\<bar>"
proof
  assume "1024 \<le> expo y"
  then have "pow2 1024 \<le> pow2 (expo y)" by (rule pow2_mono)
  with expo_bounds [OF assms] show "pow2 1024 \<le> \<bar>y\<bar>" by simp
next
  assume a: "pow2 1024 \<le> \<bar>y\<bar>"
  show "1024 \<le> expo y"
  proof (rule ccontr)
    assume "\<not> 1024 \<le> expo y"
    then have "pow2 (expo y + 1) \<le> pow2 1024" by (intro pow2_mono) simp
    with expo_bounds [OF assms] a show False by simp
  qed
qed

lemma fl_finite: "\<bar>rnd x\<bar> < pow2 1024 \<Longrightarrow> fl x = Finite (rnd x)"
  by (cases "rnd x = 0") (simp_all add: fl_def Let_def expo_overflow_iff)

lemma fl_exact: "rnd x = x \<Longrightarrow> \<bar>x\<bar> < pow2 1024 \<Longrightarrow> fl x = Finite x"
  using fl_finite [of x] by simp

lemma fl_Finite_D: "fl x = Finite y \<Longrightarrow> y = rnd x \<and> \<bar>y\<bar> < pow2 1024"
  by (cases "rnd x = 0") (auto simp: fl_def Let_def expo_overflow_iff pow2_pos split: if_splits)

lemma pow2_1024_exact: "rnd (pow2 1024) = pow2 1024"
  using rnd_exact [of "pow2 1024" 1 1024] by simp

lemma fl_overflow:
  assumes "pow2 1024 \<le> x"
  shows "fl x = PInf"
proof -
  have "rnd (pow2 1024) \<le> rnd x" using assms by (rule rnd_mono)
  then have r: "pow2 1024 \<le> rnd x" by (simp add: pow2_1024_exact)
  then have p: "0 < rnd x" using pow2_pos [of 1024] by simp
  then have "rnd x \<noteq> 0 \<and> 1024 \<le> expo (rnd x)"
    using r by (simp add: expo_overflow_iff)
  with p show ?thesis by (simp add: fl_def Let_def)
qed

lemma fl_between:
  assumes "a \<le> x" and "x \<le> b" and "rnd a = a" and "rnd b = b"
    and "\<bar>a\<bar> < pow2 1024" and "\<bar>b\<bar> < pow2 1024"
  shows "\<exists>y. fl x = Finite y \<and> a \<le> y \<and> y \<le> b"
proof -
  have lo: "a \<le> rnd x" using rnd_mono [OF assms(1)] assms(3) by simp
  have hi: "rnd x \<le> b" using rnd_mono [OF assms(2)] assms(4) by simp
  from lo hi assms(5,6) have "\<bar>rnd x\<bar> < pow2 1024" by linarith
  then have "fl x = Finite (rnd x)" by (rule fl_finite)
  with lo hi show ?thesis by simp
qed

lemma small_below_overflow: "\<bar>x\<bar> \<le> 2 ^ 53 \<Longrightarrow> \<bar>x\<bar> < pow2 1024"
proof -
  assume "\<bar>x\<bar> \<le> 2 ^ 53"
  also have "(2::real) ^ 53 = pow2 53" by (simp add: pow2_def)
  also have "\<dots> < pow2 1024" by (rule pow2_less) simp
  finally show ?thesis .
qed

lemma fl_of_int: "\<bar>m\<bar> < 2 ^ 53 \<Longrightarrow> fl (of_int m) = Finite (of_int m)"
proof -
  assume m: "\<bar>m\<bar> < 2 ^ 53"
  then have "(of_int \<bar>m\<bar> :: real) \<le> of_int (2 ^ 53)" by (simp only: of_int_le_iff)
  then have "\<bar>of_int m :: real\<bar> \<le> 2 ^ 53" by simp
  then have "\<bar>of_int m :: real\<bar> < pow2 1024" by (rule small_below_overflow)
  with rnd_of_int [OF m] show ?thesis by (rule fl_exact)
qed

lemma fl_half_int: "\<bar>m\<bar> < 2 ^ 53 \<Longrightarrow> fl (of_int m / 2) = Finite (of_int m / 2)"
proof -
  assume m: "\<bar>m\<bar> < 2 ^ 53"
  have e: "of_int m / 2 = of_int m * pow2 (- 1)" by (simp add: pow2_def)
  have r: "rnd (of_int m / 2) = of_int m / 2"
    using rnd_exact [OF e m] by simp
  from m have "(of_int \<bar>m\<bar> :: real) \<le> of_int (2 ^ 53)" by (simp only: of_int_le_iff)
  then have "\<bar>of_int m / 2 :: real\<bar> \<le> 2 ^ 53" by simp
  then have "\<bar>of_int m / 2 :: real\<bar> < pow2 1024" by (rule small_below_overflow)
  with r show ?thesis by (rule fl_exact)
qed

lemma fl_0: "fl 0 = Finite 0"
  using fl_of_int [of 0] by simp

lemma fl_1: "fl 1 = Finite 1"
  using fl_of_int [of 1] by simp

lemma fl_numeral: "numeral n < (9007199254740992::int) \<Longrightarrow> fl (numeral n) = Finite (numeral n)"
  using fl_of_int [of "numeral n"] by simp

lemma fl_neg_numeral:
  "numeral n < (9007199254740992::int) \<Longrightarrow> fl (- numeral n) = Finite (- numeral n)"
  using fl_of_int [of "- numeral n"] by simp

lemma fl_one_half: "fl (1 / 2) = Finite (1 / 2)"
  using fl_half_int [of 1] by simp

lemma fl_numeral_half:
  "numeral n < (9007199254740992::int) \<Longrightarrow> fl (numeral n / 2) = Finite (numeral n / 2)"
  using fl_half_int [of "numeral n"] by simp

lemmas fl_eval = fl_0 fl_1 fl_numeral fl_neg_numeral fl_one_half fl_numeral_half

text \<open>
  The textbook instance: \<open>0.1\<close> is the double \<open>3602879701896397 / 2\<^bsup>55\<^esup>\<close>, and \<open>0.1 + 0.2\<close> is the
  double above \<open>0.3\<close>.
\<close>

lemma tenth_plus_fifth:
  "js_div (Finite 1) (Finite 10) = Finite (3602879701896397 / 2 ^ 55)"
  "js_add (js_div (Finite 1) (Finite 10)) (js_div (Finite 2) (Finite 10)) =
     Finite (5404319552844596 / 2 ^ 54)"
  "js_div (Finite 3) (Finite 10) = Finite (5404319552844595 / 2 ^ 54)"
  by code_simp+

section \<open>The scorer: auxiliary facts\<close>

lemma betweenI: "n = Finite y \<Longrightarrow> a \<le> y \<Longrightarrow> y \<le> b \<Longrightarrow> between a b n"
  by (simp add: between_def)

lemma betweenE: "between a b n \<Longrightarrow> \<exists>y. n = Finite y \<and> a \<le> y \<and> y \<le> b"
  by (cases n) (simp_all add: between_def)

lemma fl_between_int:
  assumes "of_int a \<le> x" and "x \<le> of_int b" and "\<bar>a\<bar> < 2 ^ 53" and "\<bar>b\<bar> < 2 ^ 53"
  shows "between (of_int a) (of_int b) (fl x)"
proof -
  have A: "fl (of_int a) = Finite (of_int a)" "fl (of_int b) = Finite (of_int b)"
    using assms(3,4) by (simp_all add: fl_of_int)
  have "\<exists>y. fl x = Finite y \<and> of_int a \<le> y \<and> y \<le> of_int b"
    using assms(1,2) fl_Finite_D [OF A(1)] fl_Finite_D [OF A(2)]
    by (intro fl_between) simp_all
  then show ?thesis by (auto simp: between_def)
qed

lemma between_sub1:
  assumes "between 0 1 n"
  shows "between 0 1 (js_sub (Finite 1) n)"
proof -
  from betweenE [OF assms] obtain y where y: "n = Finite y" "0 \<le> y" "y \<le> 1" by blast
  have "between (of_int 0) (of_int 1) (fl (1 - y))"
    using y by (intro fl_between_int) simp_all
  then show ?thesis by (simp add: y js_sub_def)
qed

lemma between_mul:
  assumes "between 0 1 n" and "0 \<le> w" and "w < 2 ^ 53"
  shows "between 0 (of_int w) (js_mul n (Finite (of_int w)))"
proof -
  from betweenE [OF assms(1)] obtain y where y: "n = Finite y" "0 \<le> y" "y \<le> 1" by blast
  have "0 \<le> y * of_int w" using y assms(2) by simp
  moreover have "y * of_int w \<le> of_int w" using y assms(2) by (simp add: mult_left_le_one_le)
  ultimately have "between (of_int 0) (of_int w) (fl (y * of_int w))"
    using assms by (intro fl_between_int) simp_all
  then show ?thesis by (simp add: y)
qed

lemma between_add:
  assumes "between 0 (of_int a) m" and "between 0 (of_int b) n" and "0 \<le> a" and "0 \<le> b"
    and "a + b < 2 ^ 53"
  shows "between 0 (of_int (a + b)) (js_add m n)"
proof -
  from betweenE [OF assms(1)] obtain x where x: "m = Finite x" "0 \<le> x" "x \<le> of_int a" by blast
  from betweenE [OF assms(2)] obtain y where y: "n = Finite y" "0 \<le> y" "y \<le> of_int b" by blast
  have "between (of_int 0) (of_int (a + b)) (fl (x + y))"
    using x y assms(3,4,5) by (intro fl_between_int) simp_all
  then show ?thesis by (simp add: x y)
qed

lemma between_rate:
  assumes "between 0 100 s"
  shows "between 0 100 (js_div (Math_round (js_mul s (Finite 10))) (Finite 10))"
proof -
  from betweenE [OF assms] obtain x where x: "s = Finite x" "0 \<le> x" "x \<le> 100" by blast
  have "between (of_int 0) (of_int 1000) (fl (x * 10))"
    using x by (intro fl_between_int) simp_all
  then obtain p where p: "fl (x * 10) = Finite p" "0 \<le> p" "p \<le> 1000"
    using betweenE by fastforce
  define k where "k = \<lfloor>p + 1 / 2\<rfloor>"
  have k: "0 \<le> k" "k \<le> 1000" using p unfolding k_def by linarith+
  have "between (of_int 0) (of_int 100) (fl (of_int k / 10))"
    using k by (intro fl_between_int) simp_all
  then show ?thesis by (simp add: x p k_def)
qed

lemma score_between:
  assumes "between 0 1 (norm_mm (pointsAllowed t) pts)"
    and "between 0 1 (norm_mm (yardsAllowed t) yds)"
    and "between 0 1 (norm_mm (sacks t) sck)"
    and "between 0 1 (norm_mm (interceptions t) itc)"
    and "between 0 1 (norm_mm (fumbles t) fum)"
  shows "between 0 100 (score pts yds sck itc fum t)"
proof -
  have p: "between 0 (of_int 30)
      (js_mul (js_sub (Finite 1) (norm_mm (pointsAllowed t) pts)) (Finite (of_int 30)))"
    using assms(1) by (intro between_mul between_sub1) simp_all
  have y: "between 0 (of_int 25)
      (js_mul (js_sub (Finite 1) (norm_mm (yardsAllowed t) yds)) (Finite (of_int 25)))"
    using assms(2) by (intro between_mul between_sub1) simp_all
  have s: "between 0 (of_int 20) (js_mul (norm_mm (sacks t) sck) (Finite (of_int 20)))"
    using assms(3) by (intro between_mul) simp_all
  have i: "between 0 (of_int 15) (js_mul (norm_mm (interceptions t) itc) (Finite (of_int 15)))"
    using assms(4) by (intro between_mul) simp_all
  have f: "between 0 (of_int 10) (js_mul (norm_mm (fumbles t) fum) (Finite (of_int 10)))"
    using assms(5) by (intro between_mul) simp_all
  note py = between_add [OF p y]
  note pys = between_add [OF py s]
  note pysi = between_add [OF pys i]
  note all = between_add [OF pysi f]
  have "between 0 (of_int (30 + 25 + 20 + 15 + 10))
      (js_add (js_add (js_add (js_add
        (js_mul (js_sub (Finite 1) (norm_mm (pointsAllowed t) pts)) (Finite (of_int 30)))
        (js_mul (js_sub (Finite 1) (norm_mm (yardsAllowed t) yds)) (Finite (of_int 25))))
        (js_mul (norm_mm (sacks t) sck) (Finite (of_int 20))))
        (js_mul (norm_mm (interceptions t) itc) (Finite (of_int 15))))
        (js_mul (norm_mm (fumbles t) fum) (Finite (of_int 10))))"
    by (rule all) simp_all
  then show ?thesis by (simp add: score_def)
qed

lemma isDouble_D: "isDouble n \<Longrightarrow> \<exists>x. n = Finite x \<and> rnd x = x \<and> \<bar>x\<bar> < pow2 1024"
  by (cases n) (auto simp: isDouble_def dest: fl_Finite_D)

lemma list_all_isDouble:
  "list_all isDouble vs \<Longrightarrow> \<exists>xs. vs = map Finite xs \<and> (\<forall>x\<in>set xs. rnd x = x \<and> \<bar>x\<bar> < pow2 1024)"
proof (induction vs)
  case Nil
  then show ?case by simp
next
  case (Cons v vs)
  then obtain xs where xs: "vs = map Finite xs" "\<forall>x\<in>set xs. rnd x = x \<and> \<bar>x\<bar> < pow2 1024"
    by auto
  from Cons.prems obtain x where x: "v = Finite x" "rnd x = x" "\<bar>x\<bar> < pow2 1024"
    using isDouble_D by auto
  show ?case by (rule exI [of _ "x # xs"]) (simp add: x xs)
qed

lemma fold_Math_min_Finite: "fold Math_min (map Finite xs) (Finite a) = Finite (fold min xs a)"
  by (induction xs arbitrary: a) (simp_all add: Math_min_def min_def)

lemma fold_Math_max_Finite: "fold Math_max (map Finite xs) (Finite a) = Finite (fold max xs a)"
  by (induction xs arbitrary: a) (simp_all add: Math_max_def max_def)

lemma minMax_Finite:
  "minMax (Finite a) (map Finite xs) =
     \<lparr>mm_min = Finite (Min (set (a # xs))), mm_max = Finite (Max (set (a # xs)))\<rparr>"
  by (simp only: minMax_def fold_Math_min_Finite fold_Math_max_Finite Min.set_eq_fold Max.set_eq_fold)

lemma pow2_min_exact: "rnd (pow2 (- 1074)) = pow2 (- 1074)"
  using rnd_exact [of "pow2 (- 1074)" 1 "- 1074"] by simp

lemma sub_doubles_pos:
  assumes "rnd a = a" and "rnd b = b" and "a < b"
  shows "pow2 (- 1074) \<le> rnd (b - a)"
proof -
  from rnd_multiple [of a] assms(1) obtain m where m: "a = of_int m * pow2 (- 1074)" by auto
  from rnd_multiple [of b] assms(2) obtain n where n: "b = of_int n * pow2 (- 1074)" by auto
  have "of_int m * pow2 (- 1074) < of_int n * pow2 (- 1074)" using assms(3) m n by simp
  then have "(of_int m :: real) < of_int n" using pow2_pos [of "- 1074"] by simp
  then have "m + 1 \<le> n" by simp
  then have "(of_int (m + 1) :: real) \<le> of_int n" by (simp only: of_int_le_iff)
  then have "of_int (m + 1) * pow2 (- 1074) \<le> of_int n * pow2 (- 1074)"
    using pow2_pos [of "- 1074"] by (intro mult_right_mono) simp_all
  then have "pow2 (- 1074) \<le> b - a" by (simp add: m n algebra_simps)
  then have "rnd (pow2 (- 1074)) \<le> rnd (b - a)" by (rule rnd_mono)
  then show ?thesis by (simp add: pow2_min_exact)
qed

text \<open>
  What \<open>norm\<close> works on when the values of a metric are finite doubles with a finite spread:
  the bounds are doubles \<open>mn\<close> and \<open>mx\<close> of the list, and their difference rounds to a finite
  double.
\<close>

lemma finiteSpread_D:
  assumes "finiteSpread (v0 # rest)"
  shows "\<exists>xs mn mx. v0 # rest = map Finite xs \<and>
    (\<forall>x\<in>set xs. rnd x = x \<and> \<bar>x\<bar> < pow2 1024 \<and> mn \<le> x \<and> x \<le> mx) \<and>
    mn \<in> set xs \<and> mx \<in> set xs \<and>
    minMax v0 rest = \<lparr>mm_min = Finite mn, mm_max = Finite mx\<rparr> \<and>
    \<bar>rnd (mx - mn)\<bar> < pow2 1024"
proof -
  from assms have "list_all isDouble (v0 # rest)" by (simp add: finiteSpread_def)
  then have "\<exists>ys. v0 # rest = map Finite ys \<and> (\<forall>x\<in>set ys. rnd x = x \<and> \<bar>x\<bar> < pow2 1024)"
    by (rule list_all_isDouble)
  then obtain ys where ys: "v0 # rest = map Finite ys \<and> (\<forall>x\<in>set ys. rnd x = x \<and> \<bar>x\<bar> < pow2 1024)" ..
  then obtain a xs where axs: "ys = a # xs" by (cases ys) auto
  with ys have v0: "v0 = Finite a" and rest: "rest = map Finite xs" by simp_all
  define mn where "mn = Min (set (a # xs))"
  define mx where "mx = Max (set (a # xs))"
  have mm: "minMax v0 rest = \<lparr>mm_min = Finite mn, mm_max = Finite mx\<rparr>"
    unfolding v0 rest mn_def mx_def by (rule minMax_Finite)
  have mn_in: "mn \<in> set ys" unfolding mn_def axs by (intro Min_in) simp_all
  have mx_in: "mx \<in> set ys" unfolding mx_def axs by (intro Max_in) simp_all
  have bnd: "mn \<le> x \<and> x \<le> mx" if "x \<in> set ys" for x
  proof
    show "mn \<le> x" unfolding mn_def using that unfolding axs by (intro Min_le) simp_all
    show "x \<le> mx" unfolding mx_def using that unfolding axs by (intro Max_ge) simp_all
  qed
  from assms have "isFinite (js_sub (mm_max (minMax v0 rest)) (mm_min (minMax v0 rest)))"
    by (simp add: finiteSpread_def)
  then have "isFinite (fl (mx - mn))"
    by (simp add: mm js_sub_def)
  then obtain d where "fl (mx - mn) = Finite d"
    by (cases "fl (mx - mn)") (simp_all add: isFinite_def)
  from fl_Finite_D [OF this] have fin: "\<bar>rnd (mx - mn)\<bar> < pow2 1024"
    by auto
  have "\<forall>x\<in>set ys. rnd x = x \<and> \<bar>x\<bar> < pow2 1024 \<and> mn \<le> x \<and> x \<le> mx"
    using ys bnd by simp
  with ys mn_in mx_in mm fin have "v0 # rest = map Finite ys \<and>
    (\<forall>x\<in>set ys. rnd x = x \<and> \<bar>x\<bar> < pow2 1024 \<and> mn \<le> x \<and> x \<le> mx) \<and>
    mn \<in> set ys \<and> mx \<in> set ys \<and>
    minMax v0 rest = \<lparr>mm_min = Finite mn, mm_max = Finite mx\<rparr> \<and>
    \<bar>rnd (mx - mn)\<bar> < pow2 1024"
    by (intro conjI) simp_all
  then show ?thesis by (intro exI)
qed

lemma js_sub_Finite: "js_sub (Finite p) (Finite q) = fl (p - q)"
  by (simp add: js_sub_def)

lemma norm_Finite:
  assumes "mx \<noteq> mn"
  shows "norm_mm (Finite x) \<lparr>mm_min = Finite mn, mm_max = Finite mx\<rparr> =
    js_div (fl (x - mn)) (fl (mx - mn))"
  using assms by (simp add: norm_mm_def js_eq_def js_sub_Finite)

lemma spread_positive:
  assumes "rnd mn = mn" and "rnd mx = mx" and "mn < mx" and "\<bar>rnd (mx - mn)\<bar> < pow2 1024"
  shows "\<exists>d. fl (mx - mn) = Finite d \<and> 0 < d \<and> d = rnd (mx - mn)"
proof -
  have "pow2 (- 1074) \<le> rnd (mx - mn)" using assms(1,2,3) by (rule sub_doubles_pos)
  then have "0 < rnd (mx - mn)" using pow2_pos [of "- 1074"] by linarith
  moreover have "fl (mx - mn) = Finite (rnd (mx - mn))" using assms(4) by (rule fl_finite)
  ultimately show ?thesis by simp
qed

lemma norm_between:
  assumes "finiteSpread (v0 # rest)" and "v \<in> set (v0 # rest)"
  shows "between 0 1 (norm_mm v (minMax v0 rest))"
proof -
  from finiteSpread_D [OF assms(1)] obtain xs mn mx where vs: "v0 # rest = map Finite xs"
    and dbl: "\<forall>x\<in>set xs. rnd x = x \<and> \<bar>x\<bar> < pow2 1024 \<and> mn \<le> x \<and> x \<le> mx"
    and mn_in: "mn \<in> set xs" and mx_in: "mx \<in> set xs"
    and mm: "minMax v0 rest = \<lparr>mm_min = Finite mn, mm_max = Finite mx\<rparr>"
    and fin: "\<bar>rnd (mx - mn)\<bar> < pow2 1024"
    by (elim exE conjE) (rule that, assumption+)
  from assms(2) obtain x where x: "v = Finite x" "x \<in> set xs"
    unfolding vs by auto
  have lo: "mn \<le> x" and hi: "x \<le> mx" using dbl x(2) by simp_all
  show ?thesis
  proof (cases "mx = mn")
    case True
    then show ?thesis by (simp add: norm_mm_def mm js_eq_def between_def)
  next
    case False
    with lo hi have lt: "mn < mx" by linarith
    have "rnd mn = mn" "rnd mx = mx" using dbl mn_in mx_in by simp_all
    from spread_positive [OF this lt fin]
    obtain d where D: "fl (mx - mn) = Finite d" and dpos: "0 < d" and d: "d = rnd (mx - mn)"
      by (elim exE conjE) (rule that, assumption+)
    define n where "n = rnd (x - mn)"
    have n0: "0 \<le> n" unfolding n_def using lo by (intro rnd_nonneg) simp
    have nd: "n \<le> d" unfolding n_def d using hi by (intro rnd_mono) simp
    have "\<bar>n\<bar> < pow2 1024" using n0 nd fin unfolding d by linarith
    then have N: "fl (x - mn) = Finite n" unfolding n_def by (rule fl_finite)
    have q: "between (of_int 0) (of_int 1) (fl (n / d))"
      using n0 nd dpos by (intro fl_between_int) simp_all
    have "norm_mm v (minMax v0 rest) = js_div (fl (x - mn)) (fl (mx - mn))"
      unfolding mm x(1) using False by (rule norm_Finite)
    also have "\<dots> = fl (n / d)" unfolding N D using dpos by simp
    finally show ?thesis using q by simp
  qed
qed

lemma norm_at_min:
  assumes "finiteSpread (v0 # rest)" and "v \<in> set (v0 # rest)"
    and "\<forall>u\<in>set (v0 # rest). num_le v u" and "\<exists>u\<in>set (v0 # rest). u \<noteq> v"
  shows "norm_mm v (minMax v0 rest) = Finite 0"
proof -
  from finiteSpread_D [OF assms(1)] obtain xs mn mx where vs: "v0 # rest = map Finite xs"
    and dbl: "\<forall>x\<in>set xs. rnd x = x \<and> \<bar>x\<bar> < pow2 1024 \<and> mn \<le> x \<and> x \<le> mx"
    and mn_in: "mn \<in> set xs" and mx_in: "mx \<in> set xs"
    and mm: "minMax v0 rest = \<lparr>mm_min = Finite mn, mm_max = Finite mx\<rparr>"
    and fin: "\<bar>rnd (mx - mn)\<bar> < pow2 1024"
    by (elim exE conjE) (rule that, assumption+)
  from assms(2) obtain x where x: "v = Finite x" "x \<in> set xs"
    unfolding vs by auto
  have le: "\<forall>z\<in>set xs. x \<le> z" using assms(3) unfolding vs x by auto
  have mn: "mn = x" using le mn_in dbl x(2) by (intro antisym) auto
  from assms(4) obtain z where z: "z \<in> set xs" "z \<noteq> x" unfolding vs x by auto
  have "x \<le> z" using le z(1) by blast
  with z(2) have "x < z" by simp
  also have "z \<le> mx" using dbl z(1) by simp
  finally have lt: "mn < mx" by (simp add: mn)
  have "rnd mn = mn" "rnd mx = mx" using dbl mn_in mx_in by simp_all
  from spread_positive [OF this lt fin]
  obtain d where D: "fl (mx - mn) = Finite d" and dpos: "0 < d"
    by (elim exE conjE) (rule that, assumption+)
  have ne: "mx \<noteq> mn" using lt by simp
  have "norm_mm v (minMax v0 rest) = js_div (fl (x - mn)) (fl (mx - mn))"
    unfolding mm x(1) using ne by (rule norm_Finite)
  also have "\<dots> = Finite 0" using dpos by (simp add: mn [symmetric] D fl_0)
  finally show ?thesis .
qed

lemma norm_at_max:
  assumes "finiteSpread (v0 # rest)" and "v \<in> set (v0 # rest)"
    and "\<forall>u\<in>set (v0 # rest). num_le u v" and "\<exists>u\<in>set (v0 # rest). u \<noteq> v"
  shows "norm_mm v (minMax v0 rest) = Finite 1"
proof -
  from finiteSpread_D [OF assms(1)] obtain xs mn mx where vs: "v0 # rest = map Finite xs"
    and dbl: "\<forall>x\<in>set xs. rnd x = x \<and> \<bar>x\<bar> < pow2 1024 \<and> mn \<le> x \<and> x \<le> mx"
    and mn_in: "mn \<in> set xs" and mx_in: "mx \<in> set xs"
    and mm: "minMax v0 rest = \<lparr>mm_min = Finite mn, mm_max = Finite mx\<rparr>"
    and fin: "\<bar>rnd (mx - mn)\<bar> < pow2 1024"
    by (elim exE conjE) (rule that, assumption+)
  from assms(2) obtain x where x: "v = Finite x" "x \<in> set xs"
    unfolding vs by auto
  have le: "\<forall>z\<in>set xs. z \<le> x" using assms(3) unfolding vs x by auto
  have mx: "mx = x" using le mx_in dbl x(2) by (intro antisym) auto
  from assms(4) obtain z where z: "z \<in> set xs" "z \<noteq> x" unfolding vs x by auto
  have "z \<le> x" using le z(1) by blast
  with z(2) have "z < x" by simp
  moreover have "mn \<le> z" using dbl z(1) by simp
  ultimately have lt: "mn < mx" by (simp add: mx)
  have "rnd mn = mn" "rnd mx = mx" using dbl mn_in mx_in by simp_all
  from spread_positive [OF this lt fin]
  obtain d where D: "fl (mx - mn) = Finite d" and dpos: "0 < d"
    by (elim exE conjE) (rule that, assumption+)
  have ne: "mx \<noteq> mn" using lt by simp
  have "norm_mm v (minMax v0 rest) = js_div (fl (x - mn)) (fl (mx - mn))"
    unfolding mm x(1) using ne by (rule norm_Finite)
  also have "\<dots> = Finite 1" using dpos by (simp add: mx [symmetric] D fl_1)
  finally show ?thesis .
qed

lemma norm_constant:
  assumes "\<forall>u\<in>set (v0 # rest). js_eq u c"
  shows "norm_mm v (minMax v0 rest) = Finite (1 / 2)"
proof -
  have c: "c \<noteq> NaN" and v0: "v0 = c" and r: "\<forall>u\<in>set rest. u = c"
    using assms by (auto simp: js_eq_def)
  have le: "num_le c c" using c by (cases c) simp_all
  have "fold Math_min rest c = c \<and> fold Math_max rest c = c"
    using r by (induction rest) (simp_all add: Math_min_def Math_max_def c le)
  then show ?thesis by (simp add: norm_mm_def minMax_def v0 js_eq_def c)
qed

lemma finiteSpread_nonneg:
  assumes "list_all (\<lambda>n. isDouble n \<and> num_le (Finite 0) n) vs"
  shows "finiteSpread vs"
proof (cases vs)
  case Nil
  then show ?thesis by (simp add: finiteSpread_def)
next
  case (Cons v0 rest)
  from assms have all: "list_all isDouble vs" by (simp add: list_all_iff)
  then have "\<exists>ys. vs = map Finite ys \<and> (\<forall>x\<in>set ys. rnd x = x \<and> \<bar>x\<bar> < pow2 1024)"
    by (rule list_all_isDouble)
  then obtain ys where ys: "vs = map Finite ys \<and> (\<forall>x\<in>set ys. rnd x = x \<and> \<bar>x\<bar> < pow2 1024)" ..
  with Cons obtain a xs where axs: "ys = a # xs" by (cases ys) auto
  with ys Cons have v0: "v0 = Finite a" and rest: "rest = map Finite xs" by simp_all
  define mn where "mn = Min (set (a # xs))"
  define mx where "mx = Max (set (a # xs))"
  have mm: "minMax v0 rest = \<lparr>mm_min = Finite mn, mm_max = Finite mx\<rparr>"
    unfolding v0 rest mn_def mx_def by (rule minMax_Finite)
  have nn: "\<forall>x\<in>set ys. 0 \<le> x" using assms ys by (auto simp: list_all_iff)
  have mn_in: "mn \<in> set ys" unfolding mn_def axs by (intro Min_in) simp_all
  have mx_in: "mx \<in> set ys" unfolding mx_def axs by (intro Max_in) simp_all
  have "mn \<le> mx" unfolding mx_def using mn_in unfolding axs by (intro Max_ge) simp_all
  then have "0 \<le> rnd (mx - mn)" by (intro rnd_nonneg) simp
  moreover have "0 \<le> mn" using nn mn_in by blast
  then have "rnd (mx - mn) \<le> rnd mx" by (intro rnd_mono) simp
  moreover have "rnd mx = mx" "\<bar>mx\<bar> < pow2 1024" using ys mx_in by simp_all
  ultimately have "\<bar>rnd (mx - mn)\<bar> < pow2 1024" by linarith
  then have "fl (mx - mn) = Finite (rnd (mx - mn))" by (rule fl_finite)
  then have "isFinite (js_sub (mm_max (minMax v0 rest)) (mm_min (minMax v0 rest)))"
    by (simp add: mm js_sub_Finite isFinite_def)
  with all show ?thesis by (simp add: finiteSpread_def Cons)
qed

lemma computeEfficiencyRating_length:
  "length (computeEfficiencyRating teams) = length teams"
  by (cases teams) (simp_all add: Let_def)

lemma computeEfficiencyRating_as_map:
  "\<exists>g. computeEfficiencyRating teams = map (\<lambda>t. t\<lparr>dvoa := g t\<rparr>) teams"
  by (cases teams) (auto simp: Let_def)

lemma computeEfficiencyRating_nth:
  assumes "i < length teams"
  shows "\<exists>d. computeEfficiencyRating teams ! i = (teams ! i)\<lparr>dvoa := d\<rparr>"
proof -
  obtain g where "computeEfficiencyRating teams = map (\<lambda>t. t\<lparr>dvoa := g t\<rparr>) teams"
    using computeEfficiencyRating_as_map by blast
  with assms show ?thesis by auto
qed

lemma computeEfficiencyRating_dvoa_nth:
  assumes "i < length (t0 # ts)"
  shows "dvoa (computeEfficiencyRating (t0 # ts) ! i) =
    js_div (Math_round (js_mul
      (score (minMax (pointsAllowed t0) (map pointsAllowed ts))
        (minMax (yardsAllowed t0) (map yardsAllowed ts)) (minMax (sacks t0) (map sacks ts))
        (minMax (interceptions t0) (map interceptions ts)) (minMax (fumbles t0) (map fumbles ts))
        ((t0 # ts) ! i)) (Finite 10))) (Finite 10)"
proof -
  have "computeEfficiencyRating (t0 # ts) =
    map (\<lambda>t. t\<lparr>dvoa := js_div (Math_round (js_mul
      (score (minMax (pointsAllowed t0) (map pointsAllowed ts))
        (minMax (yardsAllowed t0) (map yardsAllowed ts)) (minMax (sacks t0) (map sacks ts))
        (minMax (interceptions t0) (map interceptions ts)) (minMax (fumbles t0) (map fumbles ts))
        t) (Finite 10))) (Finite 10)\<rparr>) (t0 # ts)"
    by (simp add: Let_def)
  then have "computeEfficiencyRating (t0 # ts) ! i =
    ((t0 # ts) ! i)\<lparr>dvoa := js_div (Math_round (js_mul
      (score (minMax (pointsAllowed t0) (map pointsAllowed ts))
        (minMax (yardsAllowed t0) (map yardsAllowed ts)) (minMax (sacks t0) (map sacks ts))
        (minMax (interceptions t0) (map interceptions ts)) (minMax (fumbles t0) (map fumbles ts))
        ((t0 # ts) ! i)) (Finite 10))) (Finite 10)\<rparr>"
    using assms by (simp only: nth_map)
  then show ?thesis by simp
qed

lemmas scorer_eval =
  minMax_def Math_min_def Math_max_def norm_mm_def js_eq_def js_sub_def score_def fl_eval

lemma sample_fields:
  "pointsAllowed sample_A = Finite 17" "yardsAllowed sample_A = Finite 300"
  "sacks sample_A = Finite 40" "interceptions sample_A = Finite 14" "fumbles sample_A = Finite 8"
  "pointsAllowed sample_B = Finite 25" "yardsAllowed sample_B = Finite 350"
  "sacks sample_B = Finite 30" "interceptions sample_B = Finite 10" "fumbles sample_B = Finite 8"
  "pointsAllowed sample_C = Finite 21" "yardsAllowed sample_C = Finite 325"
  "sacks sample_C = Finite 35" "interceptions sample_C = Finite 12" "fumbles sample_C = Finite 4"
  by (simp_all add: sample_A_def sample_B_def sample_C_def)

lemma sample_extreme_fields:
  "pointsAllowed sample_high = Finite (2 ^ 1023)" "yardsAllowed sample_high = Finite 300"
  "sacks sample_high = Finite 40" "interceptions sample_high = Finite 14"
  "fumbles sample_high = Finite 8"
  "pointsAllowed sample_low = Finite (- (2 ^ 1023))" "yardsAllowed sample_low = Finite 300"
  "sacks sample_low = Finite 40" "interceptions sample_low = Finite 14"
  "fumbles sample_low = Finite 8"
  by (simp_all add: sample_high_def sample_low_def sample_A_def)

lemma sample_ABC_dvoa:
  "dvoa (computeEfficiencyRating [sample_A, sample_B, sample_C] ! 0) = Finite 100"
  "dvoa (computeEfficiencyRating [sample_A, sample_B, sample_C] ! 1) = Finite 10"
  "dvoa (computeEfficiencyRating [sample_A, sample_B, sample_C] ! 2) = Finite 45"
  by (simp_all add: computeEfficiencyRating_dvoa_nth sample_fields scorer_eval)

lemma sample_AB_dvoa:
  "dvoa (computeEfficiencyRating [sample_A, sample_B] ! 0) = Finite 95"
  "dvoa (computeEfficiencyRating [sample_A, sample_B] ! 1) = Finite 5"
  by (simp_all add: computeEfficiencyRating_dvoa_nth sample_fields scorer_eval)

lemma sample_AC_dvoa:
  "dvoa (computeEfficiencyRating [sample_A, sample_C] ! 0) = Finite 100"
  by (simp_all add: computeEfficiencyRating_dvoa_nth sample_fields scorer_eval)

lemma sample_finiteSpread:
  "finiteSpread (map pointsAllowed [sample_A, sample_B, sample_C])"
  "finiteSpread (map yardsAllowed [sample_A, sample_B, sample_C])"
  "finiteSpread (map sacks [sample_A, sample_B, sample_C])"
  "finiteSpread (map interceptions [sample_A, sample_B, sample_C])"
  "finiteSpread (map fumbles [sample_A, sample_B, sample_C])"
  "finiteSpread (map pointsAllowed [sample_A, sample_C])"
  "finiteSpread (map yardsAllowed [sample_A, sample_C])"
  "finiteSpread (map sacks [sample_A, sample_C])"
  "finiteSpread (map interceptions [sample_A, sample_C])"
  "finiteSpread (map fumbles [sample_A, sample_C])"
  by (simp_all add: finiteSpread_def isDouble_def isFinite_def sample_fields scorer_eval)

section \<open>The scorer: claims\<close>

text \<open>
  Claim C1, as the specification states it: for every non-empty list of team records the
  \<open>dvoa\<close> written into every record lies in the closed interval from 0 to 100. It fails where
  the largest minus the smallest value of a metric overflows: for two records with
  \<open>pointsAllowed\<close> \<open>2\<^bsup>1023\<^esup>\<close> and \<open>-2\<^bsup>1023\<^esup>\<close>, both doubles, \<open>norm\<close> divides infinity by infinity and the
  first record receives \<open>NaN\<close>.
\<close>

theorem dvoa_overflow_counterexample:
  "isDouble (pointsAllowed sample_high) \<and> isDouble (pointsAllowed sample_low) \<and>
   dvoa (computeEfficiencyRating [sample_high, sample_low] ! 0) = NaN \<and>
   \<not> between 0 100 (dvoa (computeEfficiencyRating [sample_high, sample_low] ! 0))"
proof -
  have big: "\<bar>(2::real) ^ 1023\<bar> < pow2 1024"
    using pow2_less [of 1023 1024] by (simp add: pow2_def)
  have "rnd (2 ^ 1023) = 2 ^ 1023"
    using rnd_exact [of "2 ^ 1023" 1 1023] by (simp add: pow2_def)
  then have hi: "fl (2 ^ 1023) = Finite (2 ^ 1023)" using big by (rule fl_exact)
  have "rnd (- (2 ^ 1023)) = - (2 ^ 1023)"
    using rnd_exact [of "- (2 ^ 1023)" "- 1" 1023] by (simp add: pow2_def)
  then have lo: "fl (- (2 ^ 1023)) = Finite (- (2 ^ 1023))" using big by (intro fl_exact) simp_all
  have "pow2 1024 \<le> 2 ^ 1023 + 2 ^ 1023" by (simp add: pow2_def)
  then have over: "fl (2 ^ 1023 + 2 ^ 1023) = PInf" by (rule fl_overflow)
  have mm: "minMax (Finite (2 ^ 1023)) [Finite (- (2 ^ 1023))] =
      \<lparr>mm_min = Finite (- (2 ^ 1023)), mm_max = Finite (2 ^ 1023)\<rparr>"
    by (simp add: minMax_def Math_min_def Math_max_def)
  have "norm_mm (Finite (2 ^ 1023)) (minMax (Finite (2 ^ 1023)) [Finite (- (2 ^ 1023))]) =
      js_div (fl (2 ^ 1023 + 2 ^ 1023)) (fl (2 ^ 1023 + 2 ^ 1023))"
    unfolding mm by (simp add: norm_mm_def js_eq_def js_sub_def del: power_numeral)
  then have n: "norm_mm (Finite (2 ^ 1023)) (minMax (Finite (2 ^ 1023)) [Finite (- (2 ^ 1023))]) = NaN"
    by (simp only: over js_div.simps)
  have "score (minMax (Finite (2 ^ 1023)) [Finite (- (2 ^ 1023))]) yds sck itc fum t = NaN"
    if "pointsAllowed t = Finite (2 ^ 1023)" for yds sck itc fum and t :: TeamDefenseStats
    by (simp only: score_def that n js_sub_def js_neg.simps js_add.simps js_mul.simps)
  then have "dvoa (computeEfficiencyRating [sample_high, sample_low] ! 0) = NaN"
    by (simp add: computeEfficiencyRating_dvoa_nth sample_extreme_fields del: power_numeral)
  then show ?thesis
    using hi lo by (simp add: isDouble_def sample_extreme_fields between_def del: power_numeral)
qed

text \<open>
  Claim C1, amended: for every non-empty list of team records in which, for each of the five
  weighted metrics, every value is a finite double and the largest minus the smallest value
  does not overflow, the \<open>dvoa\<close> written into every record is a finite number in the closed
  interval from 0 to 100, whatever the rounding of the intermediate results; the list keeps
  its length.
\<close>

theorem dvoa_in_range:
  assumes "finiteSpread (map pointsAllowed teams)"
    and "finiteSpread (map yardsAllowed teams)"
    and "finiteSpread (map sacks teams)"
    and "finiteSpread (map interceptions teams)"
    and "finiteSpread (map fumbles teams)"
  shows "length (computeEfficiencyRating teams) = length teams \<and>
    (\<forall>t\<in>set (computeEfficiencyRating teams). between 0 100 (dvoa t))"
proof (intro conjI ballI)
  show "length (computeEfficiencyRating teams) = length teams"
    by (rule computeEfficiencyRating_length)
next
  fix t
  assume "t \<in> set (computeEfficiencyRating teams)"
  then obtain i where i: "i < length (computeEfficiencyRating teams)"
    and t: "t = computeEfficiencyRating teams ! i"
    by (auto simp: in_set_conv_nth)
  from i have il: "i < length teams" by (simp add: computeEfficiencyRating_length)
  then obtain t0 ts where teams: "teams = t0 # ts" by (cases teams) auto
  have mem: "f ((t0 # ts) ! i) \<in> set (f t0 # map f ts)" for f :: "TeamDefenseStats \<Rightarrow> number"
  proof -
    have "(t0 # ts) ! i \<in> set (t0 # ts)" using il teams by (intro nth_mem) simp
    then have "f ((t0 # ts) ! i) \<in> f ` set (t0 # ts)" by (rule imageI)
    then show ?thesis by simp
  qed
  have "between 0 100
      (score (minMax (pointsAllowed t0) (map pointsAllowed ts))
        (minMax (yardsAllowed t0) (map yardsAllowed ts)) (minMax (sacks t0) (map sacks ts))
        (minMax (interceptions t0) (map interceptions ts)) (minMax (fumbles t0) (map fumbles ts))
        ((t0 # ts) ! i))"
    using assms unfolding teams by (intro score_between norm_between mem) simp_all
  then have "between 0 100 (dvoa (computeEfficiencyRating (t0 # ts) ! i))"
    using il unfolding teams by (simp only: computeEfficiencyRating_dvoa_nth between_rate)
  then show "between 0 100 (dvoa t)" by (simp only: t teams)
qed

theorem dvoa_in_range_witness:
  "finiteSpread (map pointsAllowed [sample_A, sample_B, sample_C]) \<and>
   finiteSpread (map yardsAllowed [sample_A, sample_B, sample_C]) \<and>
   finiteSpread (map sacks [sample_A, sample_B, sample_C]) \<and>
   finiteSpread (map interceptions [sample_A, sample_B, sample_C]) \<and>
   finiteSpread (map fumbles [sample_A, sample_B, sample_C]) \<and>
   dvoa (computeEfficiencyRating [sample_A, sample_B, sample_C] ! 2) = Finite 45 \<and>
   between 0 100 (dvoa (computeEfficiencyRating [sample_A, sample_B, sample_C] ! 2))"
proof -
  note r = dvoa_in_range [OF sample_finiteSpread(1-5)]
  from r have "2 < length (computeEfficiencyRating [sample_A, sample_B, sample_C])" by simp
  then have "computeEfficiencyRating [sample_A, sample_B, sample_C] ! 2 \<in>
      set (computeEfficiencyRating [sample_A, sample_B, sample_C])"
    by (rule nth_mem)
  with r have "between 0 100 (dvoa (computeEfficiencyRating [sample_A, sample_B, sample_C] ! 2))"
    by blast
  with sample_finiteSpread(1-5) sample_ABC_dvoa(3) show ?thesis by (intro conjI)
qed

text \<open>
  Claim C2, as the specification states it: when one of the five weighted metrics has the
  same value in every record of the set, a single record included, \<open>norm\<close> of that metric is
  exactly one half for every team. It fails where that value is \<open>NaN\<close>, which is not \<open>===\<close> to
  itself, so that the guard \<open>max === min\<close> does not hold: the record built from a standings
  entry whose wins and points against are \<open>Infinity\<close> has \<open>pointsAllowed\<close> \<open>NaN\<close>, and when it is
  scored on its own \<open>norm\<close> of its \<open>pointsAllowed\<close> is \<open>NaN\<close>, as is its \<open>dvoa\<close>.
\<close>

theorem constant_metric_counterexample:
  "pointsAllowed sample_nan = NaN \<and>
   norm_mm (pointsAllowed ([sample_nan] ! 0))
     (minMax (pointsAllowed sample_nan) (map pointsAllowed ([] :: TeamDefenseStats list))) = NaN \<and>
   norm_mm (pointsAllowed ([sample_nan] ! 0))
     (minMax (pointsAllowed sample_nan) (map pointsAllowed ([] :: TeamDefenseStats list))) \<noteq>
     Finite (1 / 2) \<and>
   dvoa (computeEfficiencyRating [sample_nan] ! 0) = NaN"
proof -
  have p: "pointsAllowed sample_nan = NaN"
    by (simp add: sample_nan_def base_record_def standingsEntryTeam_def sample_infinite_def
        sample_stat_def statMatches_def or_num_def truthy_def js_gt_def)
  have n: "norm_mm NaN (minMax NaN []) = NaN"
    by (simp add: norm_mm_def minMax_def js_eq_def js_sub_def)
  have "score (minMax NaN []) yds sck itc fum sample_nan = NaN" for yds sck itc fum
    by (simp only: score_def p n js_sub_def js_neg.simps js_add.simps js_mul.simps)
  then have "dvoa (computeEfficiencyRating [sample_nan] ! 0) = NaN"
    by (simp add: computeEfficiencyRating_dvoa_nth p)
  with p n show ?thesis by simp
qed

text \<open>
  Claim C2, amended. When one of the five weighted metrics has the same value other than \<open>NaN\<close>
  in every record of the set (each is \<open>===\<close> to that of the first record), a single record
  included, \<open>norm\<close> of that metric is exactly one half for every team, and the metric's term of
  the score is exactly half its weight: 15 of 30 for points allowed, 12.5 of 25 for yards allowed, 10 of 20 for
  sacks, 7.5 of 15 for interceptions and 5 of 10 for fumbles. The \<open>dvoa\<close> the scorer writes is
  the sum of that constant and the other four terms as the scorer computes them, times 10,
  rounded, over 10; a record scored on its own is rated 50.
\<close>

theorem constant_metric_half_weight:
  fixes first :: TeamDefenseStats and rest :: "TeamDefenseStats list"
  assumes "i < length (first # rest)"
  shows
    "let teams = first # rest;
         t = teams ! i;
         P = js_mul (js_sub (Finite 1)
               (norm_mm (pointsAllowed t) (minMax (pointsAllowed first) (map pointsAllowed rest))))
               (Finite 30);
         Y = js_mul (js_sub (Finite 1)
               (norm_mm (yardsAllowed t) (minMax (yardsAllowed first) (map yardsAllowed rest))))
               (Finite 25);
         S = js_mul (norm_mm (sacks t) (minMax (sacks first) (map sacks rest))) (Finite 20);
         I = js_mul (norm_mm (interceptions t)
               (minMax (interceptions first) (map interceptions rest))) (Finite 15);
         F = js_mul (norm_mm (fumbles t) (minMax (fumbles first) (map fumbles rest))) (Finite 10);
         written = (\<lambda>s. dvoa (computeEfficiencyRating teams ! i) =
                      js_div (Math_round (js_mul s (Finite 10))) (Finite 10))
     in ((\<forall>u\<in>set teams. js_eq (pointsAllowed u) (pointsAllowed first)) \<longrightarrow>
           norm_mm (pointsAllowed t) (minMax (pointsAllowed first) (map pointsAllowed rest)) =
             Finite (1 / 2) \<and>
           P = Finite 15 \<and>
           written (js_add (js_add (js_add (js_add (Finite 15) Y) S) I) F)) \<and>
        ((\<forall>u\<in>set teams. js_eq (yardsAllowed u) (yardsAllowed first)) \<longrightarrow>
           norm_mm (yardsAllowed t) (minMax (yardsAllowed first) (map yardsAllowed rest)) =
             Finite (1 / 2) \<and>
           Y = Finite (25 / 2) \<and>
           written (js_add (js_add (js_add (js_add P (Finite (25 / 2))) S) I) F)) \<and>
        ((\<forall>u\<in>set teams. js_eq (sacks u) (sacks first)) \<longrightarrow>
           norm_mm (sacks t) (minMax (sacks first) (map sacks rest)) = Finite (1 / 2) \<and>
           S = Finite 10 \<and>
           written (js_add (js_add (js_add (js_add P Y) (Finite 10)) I) F)) \<and>
        ((\<forall>u\<in>set teams. js_eq (interceptions u) (interceptions first)) \<longrightarrow>
           norm_mm (interceptions t) (minMax (interceptions first) (map interceptions rest)) =
             Finite (1 / 2) \<and>
           I = Finite (15 / 2) \<and>
           written (js_add (js_add (js_add (js_add P Y) S) (Finite (15 / 2))) F)) \<and>
        ((\<forall>u\<in>set teams. js_eq (fumbles u) (fumbles first)) \<longrightarrow>
           norm_mm (fumbles t) (minMax (fumbles first) (map fumbles rest)) = Finite (1 / 2) \<and>
           F = Finite 5 \<and>
           written (js_add (js_add (js_add (js_add P Y) S) I) (Finite 5)))"
proof -
  have half: "norm_mm v (minMax (f first) (map f rest)) = Finite (1 / 2)"
    if "\<forall>u\<in>set (first # rest). js_eq (f u) (f first)" for f :: "TeamDefenseStats \<Rightarrow> number" and v
  proof (rule norm_constant)
    from that show "\<forall>x\<in>set (f first # map f rest). js_eq x (f first)" by auto
  qed
  have lower: "js_mul (js_sub (Finite 1) (Finite (1 / 2))) (Finite 30) = Finite 15"
    "js_mul (js_sub (Finite 1) (Finite (1 / 2))) (Finite 25) = Finite (25 / 2)"
    by (simp_all add: js_sub_def fl_eval)
  have higher: "js_mul (Finite (1 / 2)) (Finite 20) = Finite 10"
    "js_mul (Finite (1 / 2)) (Finite 15) = Finite (15 / 2)"
    "js_mul (Finite (1 / 2)) (Finite 10) = Finite 5"
    by (simp_all add: fl_eval)
  note w = computeEfficiencyRating_dvoa_nth [OF assms, unfolded score_def]
  show ?thesis
    unfolding Let_def
  proof (intro conjI impI)
    assume a: "\<forall>u\<in>set (first # rest). js_eq (pointsAllowed u) (pointsAllowed first)"
    show "norm_mm (pointsAllowed ((first # rest) ! i))
        (minMax (pointsAllowed first) (map pointsAllowed rest)) = Finite (1 / 2)"
      by (rule half [OF a])
    show "js_mul (js_sub (Finite 1) (norm_mm (pointsAllowed ((first # rest) ! i))
        (minMax (pointsAllowed first) (map pointsAllowed rest)))) (Finite 30) = Finite 15"
      by (simp only: half [OF a] lower)
    show "dvoa (computeEfficiencyRating (first # rest) ! i) =
      js_div (Math_round (js_mul (js_add (js_add (js_add (js_add (Finite 15)
        (js_mul (js_sub (Finite 1) (norm_mm (yardsAllowed ((first # rest) ! i))
          (minMax (yardsAllowed first) (map yardsAllowed rest)))) (Finite 25)))
        (js_mul (norm_mm (sacks ((first # rest) ! i)) (minMax (sacks first) (map sacks rest)))
          (Finite 20)))
        (js_mul (norm_mm (interceptions ((first # rest) ! i))
          (minMax (interceptions first) (map interceptions rest))) (Finite 15)))
        (js_mul (norm_mm (fumbles ((first # rest) ! i)) (minMax (fumbles first) (map fumbles rest)))
          (Finite 10))) (Finite 10))) (Finite 10)"
      unfolding w by (simp only: half [OF a] lower)
  next
    assume a: "\<forall>u\<in>set (first # rest). js_eq (yardsAllowed u) (yardsAllowed first)"
    show "norm_mm (yardsAllowed ((first # rest) ! i))
        (minMax (yardsAllowed first) (map yardsAllowed rest)) = Finite (1 / 2)"
      by (rule half [OF a])
    show "js_mul (js_sub (Finite 1) (norm_mm (yardsAllowed ((first # rest) ! i))
        (minMax (yardsAllowed first) (map yardsAllowed rest)))) (Finite 25) = Finite (25 / 2)"
      by (simp only: half [OF a] lower)
    show "dvoa (computeEfficiencyRating (first # rest) ! i) =
      js_div (Math_round (js_mul (js_add (js_add (js_add (js_add
        (js_mul (js_sub (Finite 1) (norm_mm (pointsAllowed ((first # rest) ! i))
          (minMax (pointsAllowed first) (map pointsAllowed rest)))) (Finite 30))
        (Finite (25 / 2)))
        (js_mul (norm_mm (sacks ((first # rest) ! i)) (minMax (sacks first) (map sacks rest)))
          (Finite 20)))
        (js_mul (norm_mm (interceptions ((first # rest) ! i))
          (minMax (interceptions first) (map interceptions rest))) (Finite 15)))
        (js_mul (norm_mm (fumbles ((first # rest) ! i)) (minMax (fumbles first) (map fumbles rest)))
          (Finite 10))) (Finite 10))) (Finite 10)"
      unfolding w by (simp only: half [OF a] lower)
  next
    assume a: "\<forall>u\<in>set (first # rest). js_eq (sacks u) (sacks first)"
    show "norm_mm (sacks ((first # rest) ! i)) (minMax (sacks first) (map sacks rest)) =
        Finite (1 / 2)"
      by (rule half [OF a])
    show "js_mul (norm_mm (sacks ((first # rest) ! i)) (minMax (sacks first) (map sacks rest)))
        (Finite 20) = Finite 10"
      by (simp only: half [OF a] higher)
    show "dvoa (computeEfficiencyRating (first # rest) ! i) =
      js_div (Math_round (js_mul (js_add (js_add (js_add (js_add
        (js_mul (js_sub (Finite 1) (norm_mm (pointsAllowed ((first # rest) ! i))
          (minMax (pointsAllowed first) (map pointsAllowed rest)))) (Finite 30))
        (js_mul (js_sub (Finite 1) (norm_mm (yardsAllowed ((first # rest) ! i))
          (minMax (yardsAllowed first) (map yardsAllowed rest)))) (Finite 25)))
        (Finite 10))
        (js_mul (norm_mm (interceptions ((first # rest) ! i))
          (minMax (interceptions first) (map interceptions rest))) (Finite 15)))
        (js_mul (norm_mm (fumbles ((first # rest) ! i)) (minMax (fumbles first) (map fumbles rest)))
          (Finite 10))) (Finite 10))) (Finite 10)"
      unfolding w by (simp only: half [OF a] higher)
  next
    assume a: "\<forall>u\<in>set (first # rest). js_eq (interceptions u) (interceptions first)"
    show "norm_mm (interceptions ((first # rest) ! i))
        (minMax (interceptions first) (map interceptions rest)) = Finite (1 / 2)"
      by (rule half [OF a])
    show "js_mul (norm_mm (interceptions ((first # rest) ! i))
        (minMax (interceptions first) (map interceptions rest))) (Finite 15) = Finite (15 / 2)"
      by (simp only: half [OF a] higher)
    show "dvoa (computeEfficiencyRating (first # rest) ! i) =
      js_div (Math_round (js_mul (js_add (js_add (js_add (js_add
        (js_mul (js_sub (Finite 1) (norm_mm (pointsAllowed ((first # rest) ! i))
          (minMax (pointsAllowed first) (map pointsAllowed rest)))) (Finite 30))
        (js_mul (js_sub (Finite 1) (norm_mm (yardsAllowed ((first # rest) ! i))
          (minMax (yardsAllowed first) (map yardsAllowed rest)))) (Finite 25)))
        (js_mul (norm_mm (sacks ((first # rest) ! i)) (minMax (sacks first) (map sacks rest)))
          (Finite 20)))
        (Finite (15 / 2)))
        (js_mul (norm_mm (fumbles ((first # rest) ! i)) (minMax (fumbles first) (map fumbles rest)))
          (Finite 10))) (Finite 10))) (Finite 10)"
      unfolding w by (simp only: half [OF a] higher)
  next
    assume a: "\<forall>u\<in>set (first # rest). js_eq (fumbles u) (fumbles first)"
    show "norm_mm (fumbles ((first # rest) ! i)) (minMax (fumbles first) (map fumbles rest)) =
        Finite (1 / 2)"
      by (rule half [OF a])
    show "js_mul (norm_mm (fumbles ((first # rest) ! i)) (minMax (fumbles first) (map fumbles rest)))
        (Finite 10) = Finite 5"
      by (simp only: half [OF a] higher)
    show "dvoa (computeEfficiencyRating (first # rest) ! i) =
      js_div (Math_round (js_mul (js_add (js_add (js_add (js_add
        (js_mul (js_sub (Finite 1) (norm_mm (pointsAllowed ((first # rest) ! i))
          (minMax (pointsAllowed first) (map pointsAllowed rest)))) (Finite 30))
        (js_mul (js_sub (Finite 1) (norm_mm (yardsAllowed ((first # rest) ! i))
          (minMax (yardsAllowed first) (map yardsAllowed rest)))) (Finite 25)))
        (js_mul (norm_mm (sacks ((first # rest) ! i)) (minMax (sacks first) (map sacks rest)))
          (Finite 20)))
        (js_mul (norm_mm (interceptions ((first # rest) ! i))
          (minMax (interceptions first) (map interceptions rest))) (Finite 15)))
        (Finite 5)) (Finite 10))) (Finite 10)"
      unfolding w by (simp only: half [OF a] higher)
  qed
qed

theorem constant_metric_half_weight_witness:
  "0 < length [sample_A] \<and>
   js_eq (pointsAllowed sample_A) (pointsAllowed sample_A) \<and>
   js_eq (yardsAllowed sample_A) (yardsAllowed sample_A) \<and>
   js_eq (sacks sample_A) (sacks sample_A) \<and>
   js_eq (interceptions sample_A) (interceptions sample_A) \<and>
   js_eq (fumbles sample_A) (fumbles sample_A) \<and>
   norm_mm (pointsAllowed ([sample_A] ! 0)) (minMax (pointsAllowed sample_A) (map pointsAllowed ([] :: TeamDefenseStats list))) =
     Finite (1 / 2) \<and>
   js_mul (js_sub (Finite 1) (norm_mm (pointsAllowed ([sample_A] ! 0))
     (minMax (pointsAllowed sample_A) (map pointsAllowed ([] :: TeamDefenseStats list))))) (Finite 30) = Finite 15 \<and>
   dvoa (computeEfficiencyRating [sample_A] ! 0) = Finite 50 \<and>
   1 < length [sample_A, sample_B] \<and>
   js_eq (fumbles sample_B) (fumbles sample_A) \<and>
   norm_mm (fumbles ([sample_A, sample_B] ! 1)) (minMax (fumbles sample_A) (map fumbles [sample_B])) =
     Finite (1 / 2) \<and>
   js_mul (norm_mm (fumbles ([sample_A, sample_B] ! 1))
     (minMax (fumbles sample_A) (map fumbles [sample_B]))) (Finite 10) = Finite 5 \<and>
   dvoa (computeEfficiencyRating [sample_A, sample_B] ! 1) = Finite 5"
proof -
  have h0: "0 < length [sample_A]" and h1: "1 < length [sample_A, sample_B]" by simp_all
  have e: "js_eq (pointsAllowed sample_A) (pointsAllowed sample_A)"
    "js_eq (yardsAllowed sample_A) (yardsAllowed sample_A)"
    "js_eq (sacks sample_A) (sacks sample_A)"
    "js_eq (interceptions sample_A) (interceptions sample_A)"
    "js_eq (fumbles sample_A) (fumbles sample_A)"
    "js_eq (fumbles sample_B) (fumbles sample_A)"
    by (simp_all add: sample_fields js_eq_def)
  let ?P = "js_mul (js_sub (Finite 1) (norm_mm (pointsAllowed ([sample_A] ! 0))
     (minMax (pointsAllowed sample_A) (map pointsAllowed ([] :: TeamDefenseStats list))))) (Finite 30)"
  let ?Y = "js_mul (js_sub (Finite 1) (norm_mm (yardsAllowed ([sample_A] ! 0))
     (minMax (yardsAllowed sample_A) (map yardsAllowed ([] :: TeamDefenseStats list))))) (Finite 25)"
  let ?S = "js_mul (norm_mm (sacks ([sample_A] ! 0)) (minMax (sacks sample_A) (map sacks ([] :: TeamDefenseStats list))))
     (Finite 20)"
  let ?I = "js_mul (norm_mm (interceptions ([sample_A] ! 0))
     (minMax (interceptions sample_A) (map interceptions ([] :: TeamDefenseStats list)))) (Finite 15)"
  have a: "\<forall>u\<in>set [sample_A]. js_eq (pointsAllowed u) (pointsAllowed sample_A)"
    "\<forall>u\<in>set [sample_A]. js_eq (yardsAllowed u) (yardsAllowed sample_A)"
    "\<forall>u\<in>set [sample_A]. js_eq (sacks u) (sacks sample_A)"
    "\<forall>u\<in>set [sample_A]. js_eq (interceptions u) (interceptions sample_A)"
    "\<forall>u\<in>set [sample_A]. js_eq (fumbles u) (fumbles sample_A)"
    using e by simp_all
  note alone = constant_metric_half_weight [OF h0, unfolded Let_def]
  from alone a(1)
  have n: "norm_mm (pointsAllowed ([sample_A] ! 0)) (minMax (pointsAllowed sample_A) (map pointsAllowed ([] :: TeamDefenseStats list))) =
     Finite (1 / 2)" and P: "?P = Finite 15"
    by blast+
  from alone a(2) have Y: "?Y = Finite (25 / 2)" by blast
  from alone a(3) have S: "?S = Finite 10" by blast
  from alone a(4) have I: "?I = Finite (15 / 2)" by blast
  from alone a(5) have "dvoa (computeEfficiencyRating [sample_A] ! 0) =
      js_div (Math_round (js_mul (js_add (js_add (js_add (js_add ?P ?Y) ?S) ?I) (Finite 5))
        (Finite 10))) (Finite 10)"
    by blast
  then have d: "dvoa (computeEfficiencyRating [sample_A] ! 0) = Finite 50"
    unfolding P Y S I by (simp add: fl_eval)
  have b: "\<forall>u\<in>set [sample_A, sample_B]. js_eq (fumbles u) (fumbles sample_A)" using e by simp
  from constant_metric_half_weight [OF h1, unfolded Let_def] b
  have f: "norm_mm (fumbles ([sample_A, sample_B] ! 1))
        (minMax (fumbles sample_A) (map fumbles [sample_B])) = Finite (1 / 2)"
    "js_mul (norm_mm (fumbles ([sample_A, sample_B] ! 1))
        (minMax (fumbles sample_A) (map fumbles [sample_B]))) (Finite 10) = Finite 5"
    by blast+
  from h0 e(1-5) n P d h1 e(6) f sample_AB_dvoa(2) show ?thesis by (intro conjI)
qed

text \<open>
  Claim C3, as the specification states it: in every team set, a team with the lowest points
  and yards allowed and the highest sacks, interceptions and fumbles receives the rating 100.
  It fails where a metric is tied across the whole set: the two sample records tie on fumbles,
  the first is best (or equal best) on all five metrics, and it is rated 95.
\<close>

theorem best_team_counterexample:
  "num_le (pointsAllowed sample_A) (pointsAllowed sample_A) \<and>
   num_le (pointsAllowed sample_A) (pointsAllowed sample_B) \<and>
   num_le (yardsAllowed sample_A) (yardsAllowed sample_A) \<and>
   num_le (yardsAllowed sample_A) (yardsAllowed sample_B) \<and>
   num_le (sacks sample_A) (sacks sample_A) \<and> num_le (sacks sample_B) (sacks sample_A) \<and>
   num_le (interceptions sample_A) (interceptions sample_A) \<and>
   num_le (interceptions sample_B) (interceptions sample_A) \<and>
   num_le (fumbles sample_A) (fumbles sample_A) \<and> num_le (fumbles sample_B) (fumbles sample_A) \<and>
   dvoa (computeEfficiencyRating [sample_A, sample_B] ! 0) = Finite 95 \<and>
   dvoa (computeEfficiencyRating [sample_A, sample_B] ! 0) \<noteq> Finite 100"
proof -
  have "dvoa (computeEfficiencyRating [sample_A, sample_B] ! 0) \<noteq> Finite 100"
    unfolding sample_AB_dvoa(1) by simp
  with sample_AB_dvoa(1) show ?thesis by (simp add: sample_fields)
qed

text \<open>
  Claim C3, amended: a team with the lowest points and yards allowed and the highest sacks,
  interceptions and fumbles receives the rating 100, provided that none of the five metrics
  has the same value in every record of the set, and that for each of them every value is a
  finite double and the largest minus the smallest value does not overflow.
\<close>

theorem best_team_dvoa_100:
  assumes i: "i < length teams"
    and "finiteSpread (map pointsAllowed teams)"
    and "finiteSpread (map yardsAllowed teams)"
    and "finiteSpread (map sacks teams)"
    and "finiteSpread (map interceptions teams)"
    and "finiteSpread (map fumbles teams)"
    and "\<forall>u\<in>set teams. num_le (pointsAllowed (teams ! i)) (pointsAllowed u)"
    and "\<exists>u\<in>set teams. pointsAllowed u \<noteq> pointsAllowed (teams ! i)"
    and "\<forall>u\<in>set teams. num_le (yardsAllowed (teams ! i)) (yardsAllowed u)"
    and "\<exists>u\<in>set teams. yardsAllowed u \<noteq> yardsAllowed (teams ! i)"
    and "\<forall>u\<in>set teams. num_le (sacks u) (sacks (teams ! i))"
    and "\<exists>u\<in>set teams. sacks u \<noteq> sacks (teams ! i)"
    and "\<forall>u\<in>set teams. num_le (interceptions u) (interceptions (teams ! i))"
    and "\<exists>u\<in>set teams. interceptions u \<noteq> interceptions (teams ! i)"
    and "\<forall>u\<in>set teams. num_le (fumbles u) (fumbles (teams ! i))"
    and "\<exists>u\<in>set teams. fumbles u \<noteq> fumbles (teams ! i)"
  shows "dvoa (computeEfficiencyRating teams ! i) = Finite 100"
proof -
  from i obtain t0 ts where teams: "teams = t0 # ts" by (cases teams) auto
  define t where "t = teams ! i"
  have mem: "f t \<in> set (f t0 # map f ts)" for f :: "TeamDefenseStats \<Rightarrow> number"
  proof -
    have "t \<in> set teams" using i by (simp add: t_def)
    then have "f t \<in> f ` set teams" by (rule imageI)
    then show ?thesis by (simp add: teams)
  qed
  have all: "\<forall>u\<in>set teams. P (f u) \<Longrightarrow> \<forall>x\<in>set (f t0 # map f ts). P x"
    for f :: "TeamDefenseStats \<Rightarrow> number" and P
    by (auto simp: teams)
  have ex: "\<exists>u\<in>set teams. P (f u) \<Longrightarrow> \<exists>x\<in>set (f t0 # map f ts). P x"
    for f :: "TeamDefenseStats \<Rightarrow> number" and P
    by (auto simp: teams)
  have fs: "finiteSpread (map f teams) \<Longrightarrow> finiteSpread (f t0 # map f ts)"
    for f :: "TeamDefenseStats \<Rightarrow> number"
    by (simp add: teams)
  have p: "norm_mm (pointsAllowed t) (minMax (pointsAllowed t0) (map pointsAllowed ts)) = Finite 0"
    using assms(7,8) unfolding t_def [symmetric]
    by (intro norm_at_min mem fs assms(2) all [of "\<lambda>x. num_le (pointsAllowed t) x"]
        ex [of "\<lambda>x. x \<noteq> pointsAllowed t"])
  have y: "norm_mm (yardsAllowed t) (minMax (yardsAllowed t0) (map yardsAllowed ts)) = Finite 0"
    using assms(9,10) unfolding t_def [symmetric]
    by (intro norm_at_min mem fs assms(3) all [of "\<lambda>x. num_le (yardsAllowed t) x"]
        ex [of "\<lambda>x. x \<noteq> yardsAllowed t"])
  have s: "norm_mm (sacks t) (minMax (sacks t0) (map sacks ts)) = Finite 1"
    using assms(11,12) unfolding t_def [symmetric]
    by (intro norm_at_max mem fs assms(4) all [of "\<lambda>x. num_le x (sacks t)"]
        ex [of "\<lambda>x. x \<noteq> sacks t"])
  have n: "norm_mm (interceptions t) (minMax (interceptions t0) (map interceptions ts)) = Finite 1"
    using assms(13,14) unfolding t_def [symmetric]
    by (intro norm_at_max mem fs assms(5) all [of "\<lambda>x. num_le x (interceptions t)"]
        ex [of "\<lambda>x. x \<noteq> interceptions t"])
  have f: "norm_mm (fumbles t) (minMax (fumbles t0) (map fumbles ts)) = Finite 1"
    using assms(15,16) unfolding t_def [symmetric]
    by (intro norm_at_max mem fs assms(6) all [of "\<lambda>x. num_le x (fumbles t)"]
        ex [of "\<lambda>x. x \<noteq> fumbles t"])
  have sc: "score (minMax (pointsAllowed t0) (map pointsAllowed ts))
      (minMax (yardsAllowed t0) (map yardsAllowed ts)) (minMax (sacks t0) (map sacks ts))
      (minMax (interceptions t0) (map interceptions ts)) (minMax (fumbles t0) (map fumbles ts)) t =
      Finite 100"
    by (simp add: score_def p y s n f js_sub_def fl_eval)
  have r: "js_div (Math_round (js_mul (Finite 100) (Finite 10))) (Finite 10) = Finite 100"
    by (simp add: fl_eval)
  have len: "i < length (t0 # ts)" using i teams by simp
  have t': "(t0 # ts) ! i = t" by (simp only: t_def teams)
  have "dvoa (computeEfficiencyRating (t0 # ts) ! i) = Finite 100"
    unfolding computeEfficiencyRating_dvoa_nth [OF len] t' sc by (rule r)
  then show ?thesis by (simp only: teams)
qed

theorem best_team_dvoa_100_witness:
  "0 < length [sample_A, sample_C] \<and>
   finiteSpread (map pointsAllowed [sample_A, sample_C]) \<and>
   finiteSpread (map yardsAllowed [sample_A, sample_C]) \<and>
   finiteSpread (map sacks [sample_A, sample_C]) \<and>
   finiteSpread (map interceptions [sample_A, sample_C]) \<and>
   finiteSpread (map fumbles [sample_A, sample_C]) \<and>
   num_le (pointsAllowed sample_A) (pointsAllowed sample_A) \<and>
   num_le (pointsAllowed sample_A) (pointsAllowed sample_C) \<and>
   pointsAllowed sample_C \<noteq> pointsAllowed sample_A \<and>
   num_le (yardsAllowed sample_A) (yardsAllowed sample_A) \<and>
   num_le (yardsAllowed sample_A) (yardsAllowed sample_C) \<and>
   yardsAllowed sample_C \<noteq> yardsAllowed sample_A \<and>
   num_le (sacks sample_A) (sacks sample_A) \<and> num_le (sacks sample_C) (sacks sample_A) \<and>
   sacks sample_C \<noteq> sacks sample_A \<and>
   num_le (interceptions sample_A) (interceptions sample_A) \<and>
   num_le (interceptions sample_C) (interceptions sample_A) \<and>
   interceptions sample_C \<noteq> interceptions sample_A \<and>
   num_le (fumbles sample_A) (fumbles sample_A) \<and> num_le (fumbles sample_C) (fumbles sample_A) \<and>
   fumbles sample_C \<noteq> fumbles sample_A \<and>
   dvoa (computeEfficiencyRating [sample_A, sample_C] ! 0) = Finite 100"
proof -
  have h0: "0 < length [sample_A, sample_C]" by simp
  have le: "num_le (pointsAllowed sample_A) (pointsAllowed sample_A)"
    "num_le (pointsAllowed sample_A) (pointsAllowed sample_C)"
    "num_le (yardsAllowed sample_A) (yardsAllowed sample_A)"
    "num_le (yardsAllowed sample_A) (yardsAllowed sample_C)"
    "num_le (sacks sample_A) (sacks sample_A)" "num_le (sacks sample_C) (sacks sample_A)"
    "num_le (interceptions sample_A) (interceptions sample_A)"
    "num_le (interceptions sample_C) (interceptions sample_A)"
    "num_le (fumbles sample_A) (fumbles sample_A)" "num_le (fumbles sample_C) (fumbles sample_A)"
    by (simp_all add: sample_fields)
  have ne: "pointsAllowed sample_C \<noteq> pointsAllowed sample_A"
    "yardsAllowed sample_C \<noteq> yardsAllowed sample_A" "sacks sample_C \<noteq> sacks sample_A"
    "interceptions sample_C \<noteq> interceptions sample_A" "fumbles sample_C \<noteq> fumbles sample_A"
    by (simp_all add: sample_fields)
  have h1: "\<forall>u\<in>set [sample_A, sample_C].
      num_le (pointsAllowed ([sample_A, sample_C] ! 0)) (pointsAllowed u)"
    using le by simp
  have h2: "\<exists>u\<in>set [sample_A, sample_C]. pointsAllowed u \<noteq> pointsAllowed ([sample_A, sample_C] ! 0)"
    using ne by simp
  have h3: "\<forall>u\<in>set [sample_A, sample_C].
      num_le (yardsAllowed ([sample_A, sample_C] ! 0)) (yardsAllowed u)"
    using le by simp
  have h4: "\<exists>u\<in>set [sample_A, sample_C]. yardsAllowed u \<noteq> yardsAllowed ([sample_A, sample_C] ! 0)"
    using ne by simp
  have h5: "\<forall>u\<in>set [sample_A, sample_C]. num_le (sacks u) (sacks ([sample_A, sample_C] ! 0))"
    using le by simp
  have h6: "\<exists>u\<in>set [sample_A, sample_C]. sacks u \<noteq> sacks ([sample_A, sample_C] ! 0)"
    using ne by simp
  have h7: "\<forall>u\<in>set [sample_A, sample_C].
      num_le (interceptions u) (interceptions ([sample_A, sample_C] ! 0))"
    using le by simp
  have h8: "\<exists>u\<in>set [sample_A, sample_C]. interceptions u \<noteq> interceptions ([sample_A, sample_C] ! 0)"
    using ne by simp
  have h9: "\<forall>u\<in>set [sample_A, sample_C]. num_le (fumbles u) (fumbles ([sample_A, sample_C] ! 0))"
    using le by simp
  have h10: "\<exists>u\<in>set [sample_A, sample_C]. fumbles u \<noteq> fumbles ([sample_A, sample_C] ! 0)"
    using ne by simp
  note best_team_dvoa_100 [OF h0 sample_finiteSpread(6-10) h1 h2 h3 h4 h5 h6 h7 h8 h9 h10]
  with h0 sample_finiteSpread(6-10) le ne show ?thesis by (intro conjI)
qed

text \<open>
  Claim C10. \<open>computeEfficiencyRating\<close> writes the \<open>dvoa\<close> field only: the list keeps its
  length and order, and every record differs from the one passed in at most in \<open>dvoa\<close>.
\<close>

theorem computeEfficiencyRating_writes_only_dvoa:
  "length (computeEfficiencyRating teams) = length teams \<and>
   (\<forall>i<length teams. (computeEfficiencyRating teams ! i)\<lparr>dvoa := dvoa (teams ! i)\<rparr> = teams ! i)"
proof (intro conjI allI impI)
  show "length (computeEfficiencyRating teams) = length teams"
    by (rule computeEfficiencyRating_length)
next
  fix i assume "i < length teams"
  then obtain d where "computeEfficiencyRating teams ! i = (teams ! i)\<lparr>dvoa := d\<rparr>"
    using computeEfficiencyRating_nth by blast
  then show "(computeEfficiencyRating teams ! i)\<lparr>dvoa := dvoa (teams ! i)\<rparr> = teams ! i"
    by simp
qed

theorem computeEfficiencyRating_writes_only_dvoa_witness:
  "1 < length [sample_A, sample_B, sample_C] \<and>
   length (computeEfficiencyRating [sample_A, sample_B, sample_C]) = length [sample_A, sample_B, sample_C] \<and>
   (computeEfficiencyRating [sample_A, sample_B, sample_C] ! 1)
     \<lparr>dvoa := dvoa ([sample_A, sample_B, sample_C] ! 1)\<rparr> = [sample_A, sample_B, sample_C] ! 1"
proof -
  have h: "1 < length [sample_A, sample_B, sample_C]" by simp
  from computeEfficiencyRating_writes_only_dvoa [of "[sample_A, sample_B, sample_C]"] h
  show ?thesis by blast
qed

section \<open>The pipeline: auxiliary facts\<close>

lemma extractTeamsFromStandings_entries:
  "extractTeamsFromStandings pf doc = map (standingsEntryTeam pf) (standingsEntries doc)"
proof (cases "children doc")
  case None
  then show ?thesis by (simp add: extractTeamsFromStandings_def standingsEntries_def)
next
  case (Some conferences)
  have "concat (map (\<lambda>conference. case standings_entries conference of None \<Rightarrow> []
          | Some entries \<Rightarrow> map (standingsEntryTeam pf) entries) cs) =
        map (standingsEntryTeam pf)
          (concat (map (\<lambda>c. case standings_entries c of None \<Rightarrow> [] | Some es \<Rightarrow> es) cs))" for cs
    by (induction cs) (simp_all split: option.splits)
  with Some show ?thesis by (simp add: extractTeamsFromStandings_def standingsEntries_def)
qed

lemma standingsEntryTeam_abbr: "t_abbr (standingsEntryTeam pf e) = espn_abbreviation (entry_team e)"
  by (simp add: standingsEntryTeam_def Let_def)

lemma getStat_not_NaN: "getStat pf sts names \<noteq> NaN"
  by (induction names) (auto simp: or_num_def truthy_def split: option.splits)

text \<open>
  A team extracted from standings has a positive number of games played unless the wins and
  losses read from its entry sum to a negative number: a sum of 0 falls back to 17.
\<close>

lemma standingsEntryTeam_gamesPlayed:
  assumes "sts = (case entry_stats e of Some s \<Rightarrow> s | None \<Rightarrow> [])"
    and "num_le (Finite 0) (js_add (getStat pf sts [''wins'', ''W'']) (getStat pf sts [''losses'', ''L'']))"
  shows "js_gt (t_gamesPlayed (standingsEntryTeam pf e)) (Finite 0)"
proof -
  define s where "s = js_add (getStat pf sts [''wins'', ''W'']) (getStat pf sts [''losses'', ''L''])"
  have g: "t_gamesPlayed (standingsEntryTeam pf e) = or_num (Some s) (Finite 17)"
    using assms(1) by (simp add: standingsEntryTeam_def Let_def s_def del: getStat.simps)
  from assms(2) have "num_le (Finite 0) s" by (simp only: s_def)
  then show ?thesis
    unfolding g by (cases s) (simp_all add: or_num_def truthy_def js_gt_def)
qed

lemma mergeStatistics_keeps:
  "team (mergeStatistics tm b d) = team b \<and> fullName (mergeStatistics tm b d) = fullName b \<and>
   logo (mergeStatistics tm b d) = logo b \<and> pointsAllowed (mergeStatistics tm b d) = pointsAllowed b"
  by (simp add: mergeStatistics_def Let_def)

lemma fetchTeamDetailedStats_keeps:
  "team (fst (fetchTeamDetailedStats fetch tm)) = t_abbr tm \<and>
   fullName (fst (fetchTeamDetailedStats fetch tm)) = t_fullName tm \<and>
   logo (fst (fetchTeamDetailedStats fetch tm)) = t_logo tm \<and>
   pointsAllowed (fst (fetchTeamDetailedStats fetch tm)) = pointsAllowed (base_record tm)"
  by (simp add: fetchTeamDetailedStats_def Let_def mergeStatistics_keeps base_record_def
      split: Fetched.splits option.splits)

lemma fetchTeamDetailedStats_failed:
  assumes "fetchFailed (fetch (statisticsUrl (t_id tm)))"
  shows "fst (fetchTeamDetailedStats fetch tm) = base_record tm"
  using assms
  by (auto simp: fetchTeamDetailedStats_def fetchFailed_def Let_def split: Fetched.splits option.splits)

lemma fetchTeamDetailedStats_requests:
  "snd (fetchTeamDetailedStats fetch tm) = [statisticsUrl (t_id tm)]"
  by (simp add: fetchTeamDetailedStats_def Let_def)

lemma GET_success:
  assumes "standings_response w = Response True (Some doc)"
    and "extractTeamsFromStandings pf doc \<noteq> []"
  shows "GET pf w now =
    (\<lparr>status = 200,
      body = Success
        (computeEfficiencyRating
          (map (\<lambda>tm. fst (fetchTeamDetailedStats (statistics_response w) tm))
            (extractTeamsFromStandings pf doc)))
        now ''ESPN API - 2024 Season''\<rparr>,
     standingsUrl # map (\<lambda>tm. statisticsUrl (t_id tm)) (extractTeamsFromStandings pf doc))"
proof -
  have "concat (map snd (map (fetchTeamDetailedStats (statistics_response w)) ts)) =
    map (\<lambda>tm. statisticsUrl (t_id tm)) ts" for ts
    by (induction ts) (simp_all add: fetchTeamDetailedStats_requests)
  with assms show ?thesis by (simp add: GET_def Let_def comp_def)
qed

lemma GET_no_teams:
  assumes "standings_response w = Response True (Some doc)"
    and "extractTeamsFromStandings pf doc = []"
  shows "GET pf w now =
    (\<lparr>status = 500, body = Failure ''No teams found in standings'' []\<rparr>, [standingsUrl])"
  using assms by (simp add: GET_def)

lemma GET_failure_cases:
  assumes "standings_response w = Rejected \<or> (\<exists>b. standings_response w = Response False b) \<or>
     standings_response w = Response True None"
  shows "\<exists>e. \<forall>now. GET pf w now = (\<lparr>status = 500, body = Failure e []\<rparr>, [standingsUrl])"
  using assms by (auto simp: GET_def)

lemma GET_shape:
  "(\<exists>e. \<forall>now. GET pf w now = (\<lparr>status = 500, body = Failure e []\<rparr>, [standingsUrl])) \<or>
   (\<exists>sts reqs. \<forall>now. GET pf w now =
      (\<lparr>status = 200, body = Success sts now ''ESPN API - 2024 Season''\<rparr>, reqs))"
proof (cases "\<exists>doc. standings_response w = Response True (Some doc)")
  case False
  then have "standings_response w = Rejected \<or> (\<exists>b. standings_response w = Response False b) \<or>
     standings_response w = Response True None"
    by (cases "standings_response w") auto
  then show ?thesis using GET_failure_cases by blast
next
  case True
  then obtain doc where doc: "standings_response w = Response True (Some doc)" by blast
  show ?thesis
  proof (cases "extractTeamsFromStandings pf doc = []")
    case True
    with doc show ?thesis using GET_no_teams by blast
  next
    case False
    with doc show ?thesis using GET_success by blast
  qed
qed

lemma GET_teams:
  assumes w: "standings_response w = Response True (Some doc)"
  shows "map team (env_stats (body (fst (GET pf w now)))) =
    map (\<lambda>e. espn_abbreviation (entry_team e)) (standingsEntries doc)"
proof (cases "extractTeamsFromStandings pf doc = []")
  case True
  then have "standingsEntries doc = []"
    by (simp add: extractTeamsFromStandings_entries)
  with True w show ?thesis by (simp add: GET_no_teams)
next
  case False
  obtain g where g: "computeEfficiencyRating
        (map (\<lambda>tm. fst (fetchTeamDetailedStats (statistics_response w) tm))
          (extractTeamsFromStandings pf doc)) =
      map (\<lambda>t. t\<lparr>dvoa := g t\<rparr>)
        (map (\<lambda>tm. fst (fetchTeamDetailedStats (statistics_response w) tm))
          (extractTeamsFromStandings pf doc))"
    using computeEfficiencyRating_as_map by blast
  have "env_stats (body (fst (GET pf w now))) =
      map (\<lambda>t. t\<lparr>dvoa := g t\<rparr>)
        (map (\<lambda>tm. fst (fetchTeamDetailedStats (statistics_response w) tm))
          (extractTeamsFromStandings pf doc))"
    using w False g by (simp add: GET_success)
  then show ?thesis
    by (simp add: comp_def fetchTeamDetailedStats_keeps extractTeamsFromStandings_entries
        standingsEntryTeam_abbr)
qed

lemma mergeStatistics_yards:
  assumes "opponentCategories (statsResults data) \<noteq> []" and "js_gt (t_gamesPlayed tm) (Finite 0)"
  shows "yardsAllowed (mergeStatistics tm b data) =
      js_div (Math_round (js_mul
        (js_div (findStat (opponentCategories (statsResults data)) ''rushing'' ''totalYards'')
          (t_gamesPlayed tm)) (Finite 10))) (Finite 10)"
    and "passYardsAllowed (mergeStatistics tm b data) =
      js_div (Math_round (js_mul
        (js_div (findStat (opponentCategories (statsResults data)) ''passing'' ''netPassingYards'')
          (t_gamesPlayed tm)) (Finite 10))) (Finite 10)"
    and "rushYardsAllowed (mergeStatistics tm b data) =
      js_div (Math_round (js_mul
        (js_div (findStat (opponentCategories (statsResults data)) ''rushing'' ''rushingYards'')
          (t_gamesPlayed tm)) (Finite 10))) (Finite 10)"
  using assms by (simp_all add: mergeStatistics_def Let_def)

lemma no_games_zero:
  assumes "\<not> js_gt (t_gamesPlayed tm) (Finite 0)"
  shows "pointsAllowed (fst (fetchTeamDetailedStats fetch tm)) = Finite 0"
    and "yardsAllowed (fst (fetchTeamDetailedStats fetch tm)) = Finite 0"
    and "passYardsAllowed (fst (fetchTeamDetailedStats fetch tm)) = Finite 0"
    and "rushYardsAllowed (fst (fetchTeamDetailedStats fetch tm)) = Finite 0"
  using assms
  by (simp_all add: fetchTeamDetailedStats_def Let_def mergeStatistics_def base_record_def
      split: Fetched.splits option.splits)

lemma sample_teams:
  "extractTeamsFromStandings sample_parseFloat sample_standings =
     [sample_BUF_team, sample_PHI_team, sample_DAL_team]"
  by (simp add: extractTeamsFromStandings_def sample_standings_def standingsEntryTeam_def
      sample_BUF_def sample_PHI_def sample_DAL_def sample_stat_def statMatches_def or_num_def
      truthy_def fl_eval sample_BUF_team_def sample_PHI_team_def sample_DAL_team_def)

lemma sample_negative_extracted:
  "standingsEntryTeam sample_parseFloat sample_negative = sample_negative_team"
  by (simp add: standingsEntryTeam_def sample_negative_def sample_stat_def statMatches_def
      or_num_def truthy_def fl_eval sample_negative_team_def)

lemma sample_DAL_failed:
  "fetchFailed (statistics_response sample_upstream (statisticsUrl (t_id sample_DAL_team)))"
  by code_simp

lemma sample_PHI_fetched:
  "statistics_response sample_upstream (statisticsUrl (t_id sample_PHI_team)) =
     Response True (Some sample_PHI_statistics)"
  "opponentCategories (statsResults sample_PHI_statistics) \<noteq> []"
  "findStat (opponentCategories (statsResults sample_PHI_statistics)) ''rushing'' ''totalYards'' =
     Finite 4732"
  by code_simp+

lemma per_game_4732:
  "js_div (Math_round (js_mul (js_div (Finite 4732) (Finite 17)) (Finite 10))) (Finite 10) =
   js_div (Finite 2784) (Finite 10)"
  by code_simp

lemma roundedTo1Decimal_iff:
  "roundedTo1Decimal x r \<longleftrightarrow>
     (\<exists>k::int. r = fl (of_int k / 10) \<and>
        \<bar>of_int k - 10 * x\<bar> \<le> 1 / 2 + \<bar>x\<bar> * pow2 (- 48) + pow2 (- 1070))"
proof -
  define t where "t = 1 / 2 + \<bar>x\<bar> * pow2 (- 48) + pow2 (- 1070)"
  have "\<lfloor>10 * x - t\<rfloor> \<le> k \<and> k \<le> \<lceil>10 * x + t\<rceil>" if "\<bar>of_int k - 10 * x\<bar> \<le> t" for k :: int
  proof
    from that have "10 * x - t \<le> of_int k" by linarith
    then show "\<lfloor>10 * x - t\<rfloor> \<le> k" by (simp add: floor_le_iff)
    from that have "of_int k \<le> 10 * x + t" by linarith
    then show "k \<le> \<lceil>10 * x + t\<rceil>" by (simp add: le_ceiling_iff)
  qed
  then show ?thesis
    unfolding roundedTo1Decimal_def Let_def t_def [symmetric] list_ex_iff by auto
qed

lemma rnd_rel_error: "\<bar>rnd x - x\<bar> \<le> \<bar>x\<bar> * pow2 (- 53) + pow2 (- 1075)"
proof -
  have half: "pow2 (k - 1) = pow2 k / 2" for k
    using pow2_add [of "k - 1" 1] by (simp add: pow2_def)
  have e: "\<bar>rnd x - x\<bar> \<le> pow2 (ulp_exp x - 1)"
    using rnd_error [of x] by (simp add: half)
  show ?thesis
  proof (cases "- 1074 < ulp_exp x")
    case True
    then have "pow2 (ulp_exp x + 52) \<le> \<bar>x\<bar>" by (rule ulp_lower)
    then have "pow2 (ulp_exp x + 52) * pow2 (- 53) \<le> \<bar>x\<bar> * pow2 (- 53)"
      using pow2_pos [of "- 53"] by (simp only: mult_le_cancel_right_pos)
    moreover have "pow2 (ulp_exp x + 52) * pow2 (- 53) = pow2 (ulp_exp x - 1)"
      using pow2_add [of "ulp_exp x + 52" "- 53"] by simp
    ultimately show ?thesis using e pow2_pos [of "- 1075"] by linarith
  next
    case False
    with ulp_exp_ge [of x] have "ulp_exp x = - 1074" by linarith
    then have "pow2 (ulp_exp x - 1) = pow2 (- 1075)" by simp
    moreover have "0 \<le> \<bar>x\<bar> * pow2 (- 53)" using pow2_pos [of "- 53"] by simp
    ultimately show ?thesis using e by linarith
  qed
qed

lemma rnd_abs_le:
  assumes "\<bar>x\<bar> \<le> b" and "rnd b = b"
  shows "\<bar>rnd x\<bar> \<le> b"
proof -
  from assms(1) have "x \<le> b" and "- b \<le> x" by linarith+
  then have "rnd x \<le> rnd b" and "rnd (- b) \<le> rnd x" by (simp_all only: rnd_mono)
  then show ?thesis using assms(2) by (simp add: rnd_minus abs_le_iff)
qed

lemma pow2_1020_exact: "rnd (pow2 1020) = pow2 1020" "rnd (10 * pow2 1020) = 10 * pow2 1020"
  using rnd_exact [of "pow2 1020" 1 1020] rnd_exact [of "10 * pow2 1020" 10 1020] by simp_all

lemma pow2_1020_small: "10 * pow2 1020 < pow2 1024"
proof -
  have "pow2 1024 = pow2 4 * pow2 1020" using pow2_add [of 4 1020] by simp
  also have "pow2 4 = 16" by (simp add: pow2_def)
  finally show ?thesis using pow2_pos [of 1020] by simp
qed

text \<open>
  The per-game expression of \<open>fetchTeamDetailedStats\<close>,
  \<open>Math.round((total / gamesPlayed) * 10) / 10\<close>, on a positive number of games and a quotient
  of magnitude \<open>2\<^bsup>1020\<^esup>\<close> at most: neither the quotient nor the product overflows, and the integer
  that \<open>Math.round\<close> returns is within one half of ten times the quotient, up to the two
  rounding errors.
\<close>

lemma per_game_rounded:
  assumes "0 < G" and "\<bar>T / G\<bar> \<le> pow2 1020"
  shows "roundedTo1Decimal (T / G)
    (js_div (Math_round (js_mul (js_div (Finite T) (Finite G)) (Finite 10))) (Finite 10))"
proof -
  define x where "x = T / G"
  define q where "q = rnd x"
  define y where "y = rnd (q * 10)"
  define k where "k = \<lfloor>y + 1 / 2\<rfloor>"
  define e where "e = pow2 (- 53)"
  define d where "d = pow2 (- 1075)"
  define a where "a = \<bar>x\<bar>"
  have x: "\<bar>x\<bar> \<le> pow2 1020" using assms(2) by (simp only: x_def)
  have qb: "\<bar>q\<bar> \<le> pow2 1020" unfolding q_def using x pow2_1020_exact(1) by (rule rnd_abs_le)
  then have "\<bar>q\<bar> < pow2 1024" using pow2_1020_small pow2_pos [of 1020] by linarith
  then have fq: "fl x = Finite q" unfolding q_def by (rule fl_finite)
  from qb have "\<bar>q * 10\<bar> \<le> 10 * pow2 1020" by (simp add: abs_mult)
  then have "\<bar>y\<bar> \<le> 10 * pow2 1020" unfolding y_def using pow2_1020_exact(2) by (rule rnd_abs_le)
  then have "\<bar>rnd (q * 10)\<bar> < pow2 1024" unfolding y_def using pow2_1020_small by linarith
  then have fy: "fl (q * 10) = Finite y" unfolding y_def by (rule fl_finite)
  have res: "js_div (Math_round (js_mul (js_div (Finite T) (Finite G)) (Finite 10))) (Finite 10) =
      fl (of_int k / 10)"
    using assms(1) by (simp add: fq [unfolded x_def] fy k_def)
  have e: "0 < e" "10 * e \<le> 1" "32 * e = pow2 (- 48)"
  proof -
    show "0 < e" unfolding e_def by (rule pow2_pos)
    have "pow2 (- 48) = pow2 5 * pow2 (- 53)" using pow2_add [of 5 "- 53"] by simp
    also have "pow2 5 = 32" by (simp add: pow2_def)
    finally show "32 * e = pow2 (- 48)" by (simp add: e_def)
    have "pow2 (- 53) \<le> pow2 (- 4)" by (rule pow2_mono) simp
    also have "pow2 (- 4) = 1 / 16" by (simp add: pow2_def)
    finally show "10 * e \<le> 1" by (simp add: e_def)
  qed
  have d: "0 < d" "32 * d = pow2 (- 1070)"
  proof -
    show "0 < d" unfolding d_def by (rule pow2_pos)
    have "pow2 (- 1070) = pow2 5 * pow2 (- 1075)" using pow2_add [of 5 "- 1075"] by simp
    also have "pow2 5 = 32" by (simp add: pow2_def)
    finally show "32 * d = pow2 (- 1070)" by (simp add: d_def)
  qed
  have a: "0 \<le> a" by (simp add: a_def)
  have h1: "\<bar>q - x\<bar> \<le> a * e + d"
    unfolding q_def a_def e_def d_def by (rule rnd_rel_error)
  have "\<bar>y - q * 10\<bar> \<le> \<bar>q * 10\<bar> * e + d"
    unfolding y_def e_def d_def by (rule rnd_rel_error)
  then have h2: "\<bar>y - q * 10\<bar> \<le> 10 * (\<bar>q\<bar> * e) + d" by (simp add: abs_mult)
  have h3: "\<bar>of_int k - y\<bar> \<le> 1 / 2" unfolding k_def by linarith
  have "\<bar>q\<bar> \<le> a + (a * e + d)" using h1 unfolding a_def by linarith
  then have "\<bar>q\<bar> * e \<le> (a + (a * e + d)) * e"
    using e(1) by (simp only: mult_le_cancel_right_pos)
  also have "\<dots> = a * e + (a * e) * e + d * e" by (simp add: algebra_simps)
  finally have qe: "\<bar>q\<bar> * e \<le> a * e + (a * e) * e + d * e" .
  have "0 \<le> a * e" using a e(1) by simp
  then have "(a * e) * (10 * e) \<le> (a * e) * 1" using e(2) by (rule mult_left_mono [rotated])
  then have p1: "10 * ((a * e) * e) \<le> a * e" by simp
  have "d * (10 * e) \<le> d * 1" using e(2) d(1) by (intro mult_left_mono) simp_all
  then have p2: "10 * (d * e) \<le> d" by simp
  have tri: "\<bar>A + B + C\<bar> \<le> \<bar>A\<bar> + \<bar>B\<bar> + \<bar>C\<bar>" for A B C :: real by linarith
  have "of_int k - 10 * x = (of_int k - y) + (y - q * 10) + 10 * (q - x)" by simp
  then have "\<bar>of_int k - 10 * x\<bar> \<le> \<bar>of_int k - y\<bar> + \<bar>y - q * 10\<bar> + \<bar>10 * (q - x)\<bar>"
    by (simp only: tri)
  also have "\<bar>10 * (q - x)\<bar> = 10 * \<bar>q - x\<bar>" by (simp only: abs_mult abs_numeral)
  finally have "\<bar>of_int k - 10 * x\<bar> \<le> \<bar>of_int k - y\<bar> + \<bar>y - q * 10\<bar> + 10 * \<bar>q - x\<bar>" .
  also have "\<dots> \<le> 1 / 2 + 21 * (a * e) + 12 * d"
  proof -
    have lin: "A \<le> 1 / 2 \<Longrightarrow> B \<le> 10 * Q + d \<Longrightarrow> C \<le> ae + d \<Longrightarrow> Q \<le> ae + aee + de \<Longrightarrow>
        10 * aee \<le> ae \<Longrightarrow> 10 * de \<le> d \<Longrightarrow> A + B + 10 * C \<le> 1 / 2 + 21 * ae + 12 * d"
      for A B C Q ae aee de :: real
      by linarith
    from h3 h2 h1 qe p1 p2 show ?thesis by (rule lin)
  qed
  also have "\<dots> \<le> 1 / 2 + a * (32 * e) + 32 * d"
  proof -
    have "0 \<le> a * e" using a e(1) by simp
    then show ?thesis using d(1) by (simp add: algebra_simps)
  qed
  finally have "\<bar>of_int k - 10 * x\<bar> \<le> 1 / 2 + \<bar>x\<bar> * pow2 (- 48) + pow2 (- 1070)"
    by (simp only: e(3) d(2) a_def)
  then show ?thesis
    unfolding res roundedTo1Decimal_iff x_def by (intro exI [of _ k] conjI refl)
qed

lemma not_rounded_minus_100: "\<not> roundedTo1Decimal (300 / (- 3)) (Finite 0)"
proof
  assume "roundedTo1Decimal (300 / (- 3)) (Finite 0)"
  then obtain k :: int where r: "Finite 0 = fl (of_int k / 10)"
    and b: "\<bar>of_int k - 10 * (300 / (- 3) :: real)\<bar> \<le>
      1 / 2 + \<bar>300 / (- 3) :: real\<bar> * pow2 (- 48) + pow2 (- 1070)"
    unfolding roundedTo1Decimal_iff by (elim exE conjE)
  have "pow2 (- 48) \<le> pow2 (- 10)" by (rule pow2_mono) simp
  also have "pow2 (- 10) = 1 / 1024" by (simp add: pow2_def)
  finally have s1: "pow2 (- 48) \<le> 1 / 1024" .
  have "pow2 (- 1070) \<le> pow2 (- 3)" by (rule pow2_mono) simp
  also have "pow2 (- 3) = 1 / 8" by (simp add: pow2_def)
  finally have s2: "pow2 (- 1070) \<le> 1 / 8" .
  from b s1 s2 have "\<bar>(of_int k :: real) + 1000\<bar> < 1" by simp
  then have "\<bar>of_int (k + 1000) :: real\<bar> < of_int 1" by simp
  then have "\<bar>k + 1000\<bar> < 1" by (simp only: of_int_abs [symmetric] of_int_less_iff)
  then have "k = - 1000" by simp
  with r show False by (simp add: fl_eval)
qed

section \<open>The pipeline: claims\<close>

text \<open>
  Claim C4. When the standings request succeeds and yields at least one team, the handler
  answers with status 200 and one record per team extracted from standings, in order, also
  when per-team statistics requests fail. A team whose statistics request throws, answers
  with a non-success status or has a body that does not parse keeps its abbreviation, full
  name and logo and the per-game points allowed computed from standings, and has
  \<open>yardsAllowed\<close>, \<open>passYardsAllowed\<close>, \<open>rushYardsAllowed\<close>, \<open>sacks\<close>, \<open>interceptions\<close> and
  \<open>fumbles\<close> equal to 0.
\<close>

theorem failed_statistics_fetch_keeps_batch:
  assumes "standings_response w = Response True (Some doc)"
    and "extractTeamsFromStandings pf doc = teams"
    and "teams \<noteq> []"
  shows "\<exists>sts. fst (GET pf w now) =
        \<lparr>status = 200, body = Success sts now ''ESPN API - 2024 Season''\<rparr> \<and>
      length sts = length teams \<and>
      (\<forall>i<length teams.
         team (sts ! i) = t_abbr (teams ! i) \<and>
         (fetchFailed (statistics_response w (statisticsUrl (t_id (teams ! i)))) \<longrightarrow>
            fullName (sts ! i) = t_fullName (teams ! i) \<and>
            logo (sts ! i) = t_logo (teams ! i) \<and>
            pointsAllowed (sts ! i) =
              (if js_gt (t_gamesPlayed (teams ! i)) (Finite 0)
               then js_div (Math_round (js_mul
                      (js_div (t_pointsAllowed (teams ! i)) (t_gamesPlayed (teams ! i)))
                      (Finite 10))) (Finite 10)
               else Finite 0) \<and>
            yardsAllowed (sts ! i) = Finite 0 \<and> passYardsAllowed (sts ! i) = Finite 0 \<and>
            rushYardsAllowed (sts ! i) = Finite 0 \<and> sacks (sts ! i) = Finite 0 \<and>
            interceptions (sts ! i) = Finite 0 \<and> fumbles (sts ! i) = Finite 0))"
proof -
  define fetched where
    "fetched = map (\<lambda>tm. fst (fetchTeamDetailedStats (statistics_response w) tm)) teams"
  define sts where "sts = computeEfficiencyRating fetched"
  have len: "length sts = length teams"
    by (simp add: sts_def fetched_def computeEfficiencyRating_length)
  have resp: "fst (GET pf w now) =
      \<lparr>status = 200, body = Success sts now ''ESPN API - 2024 Season''\<rparr>"
    using assms by (simp add: GET_success sts_def fetched_def)
  have each: "team (sts ! i) = t_abbr (teams ! i) \<and>
         (fetchFailed (statistics_response w (statisticsUrl (t_id (teams ! i)))) \<longrightarrow>
            fullName (sts ! i) = t_fullName (teams ! i) \<and>
            logo (sts ! i) = t_logo (teams ! i) \<and>
            pointsAllowed (sts ! i) =
              (if js_gt (t_gamesPlayed (teams ! i)) (Finite 0)
               then js_div (Math_round (js_mul
                      (js_div (t_pointsAllowed (teams ! i)) (t_gamesPlayed (teams ! i)))
                      (Finite 10))) (Finite 10)
               else Finite 0) \<and>
            yardsAllowed (sts ! i) = Finite 0 \<and> passYardsAllowed (sts ! i) = Finite 0 \<and>
            rushYardsAllowed (sts ! i) = Finite 0 \<and> sacks (sts ! i) = Finite 0 \<and>
            interceptions (sts ! i) = Finite 0 \<and> fumbles (sts ! i) = Finite 0)"
    if i: "i < length teams" for i
  proof -
    from i have "i < length fetched" by (simp add: fetched_def)
    then obtain d where "sts ! i = (fetched ! i)\<lparr>dvoa := d\<rparr>"
      unfolding sts_def using computeEfficiencyRating_nth by blast
    moreover have "fetched ! i = fst (fetchTeamDetailedStats (statistics_response w) (teams ! i))"
      using i by (simp add: fetched_def)
    ultimately have eq: "sts ! i =
        (fst (fetchTeamDetailedStats (statistics_response w) (teams ! i)))\<lparr>dvoa := d\<rparr>"
      by simp
    have "team (sts ! i) = t_abbr (teams ! i)"
      unfolding eq by (simp add: fetchTeamDetailedStats_keeps)
    moreover have "fullName (sts ! i) = t_fullName (teams ! i) \<and>
            logo (sts ! i) = t_logo (teams ! i) \<and>
            pointsAllowed (sts ! i) =
              (if js_gt (t_gamesPlayed (teams ! i)) (Finite 0)
               then js_div (Math_round (js_mul
                      (js_div (t_pointsAllowed (teams ! i)) (t_gamesPlayed (teams ! i)))
                      (Finite 10))) (Finite 10)
               else Finite 0) \<and>
            yardsAllowed (sts ! i) = Finite 0 \<and> passYardsAllowed (sts ! i) = Finite 0 \<and>
            rushYardsAllowed (sts ! i) = Finite 0 \<and> sacks (sts ! i) = Finite 0 \<and>
            interceptions (sts ! i) = Finite 0 \<and> fumbles (sts ! i) = Finite 0"
      if "fetchFailed (statistics_response w (statisticsUrl (t_id (teams ! i))))"
      unfolding eq
        fetchTeamDetailedStats_failed [of "statistics_response w" "teams ! i", OF that]
      by (simp add: base_record_def)
    ultimately show ?thesis by blast
  qed
  from resp len each show ?thesis by blast
qed

theorem failed_statistics_fetch_keeps_batch_witness:
  "standings_response sample_upstream = Response True (Some sample_standings) \<and>
   extractTeamsFromStandings sample_parseFloat sample_standings =
     [sample_BUF_team, sample_PHI_team, sample_DAL_team] \<and>
   fetchFailed (statistics_response sample_upstream (statisticsUrl (t_id sample_DAL_team))) \<and>
   (\<exists>sts. fst (GET sample_parseFloat sample_upstream sample_now) =
        \<lparr>status = 200, body = Success sts sample_now ''ESPN API - 2024 Season''\<rparr> \<and>
      length sts = 3 \<and>
      team (sts ! 2) = ''DAL'' \<and> fullName (sts ! 2) = ''Dallas Cowboys'' \<and> logo (sts ! 2) = '''' \<and>
      pointsAllowed (sts ! 2) = Finite 20 \<and>
      yardsAllowed (sts ! 2) = Finite 0 \<and> passYardsAllowed (sts ! 2) = Finite 0 \<and>
      rushYardsAllowed (sts ! 2) = Finite 0 \<and> sacks (sts ! 2) = Finite 0 \<and>
      interceptions (sts ! 2) = Finite 0 \<and> fumbles (sts ! 2) = Finite 0)"
proof -
  let ?teams = "[sample_BUF_team, sample_PHI_team, sample_DAL_team]"
  have h1: "standings_response sample_upstream = Response True (Some sample_standings)"
    by (simp add: sample_upstream_def)
  note h2 = sample_teams
  have h3: "?teams \<noteq> []" by simp
  note f = sample_DAL_failed
  have g: "js_gt (Finite 17) (Finite 0)" by (simp add: js_gt_def)
  from failed_statistics_fetch_keeps_batch [OF h1 h2 h3, of sample_now]
  obtain sts where a: "fst (GET sample_parseFloat sample_upstream sample_now) =
        \<lparr>status = 200, body = Success sts sample_now ''ESPN API - 2024 Season''\<rparr>"
    and l: "length sts = length ?teams"
    and e: "\<forall>i<length ?teams.
         team (sts ! i) = t_abbr (?teams ! i) \<and>
         (fetchFailed (statistics_response sample_upstream (statisticsUrl (t_id (?teams ! i)))) \<longrightarrow>
            fullName (sts ! i) = t_fullName (?teams ! i) \<and>
            logo (sts ! i) = t_logo (?teams ! i) \<and>
            pointsAllowed (sts ! i) =
              (if js_gt (t_gamesPlayed (?teams ! i)) (Finite 0)
               then js_div (Math_round (js_mul
                      (js_div (t_pointsAllowed (?teams ! i)) (t_gamesPlayed (?teams ! i)))
                      (Finite 10))) (Finite 10)
               else Finite 0) \<and>
            yardsAllowed (sts ! i) = Finite 0 \<and> passYardsAllowed (sts ! i) = Finite 0 \<and>
            rushYardsAllowed (sts ! i) = Finite 0 \<and> sacks (sts ! i) = Finite 0 \<and>
            interceptions (sts ! i) = Finite 0 \<and> fumbles (sts ! i) = Finite 0)"
    by (elim exE conjE) (rule that, assumption+)
  have i2: "?teams ! 2 = sample_DAL_team" by simp
  have "2 < length ?teams" by simp
  with e have "team (sts ! 2) = t_abbr (?teams ! 2) \<and>
         (fetchFailed (statistics_response sample_upstream (statisticsUrl (t_id (?teams ! 2)))) \<longrightarrow>
            fullName (sts ! 2) = t_fullName (?teams ! 2) \<and>
            logo (sts ! 2) = t_logo (?teams ! 2) \<and>
            pointsAllowed (sts ! 2) =
              (if js_gt (t_gamesPlayed (?teams ! 2)) (Finite 0)
               then js_div (Math_round (js_mul
                      (js_div (t_pointsAllowed (?teams ! 2)) (t_gamesPlayed (?teams ! 2)))
                      (Finite 10))) (Finite 10)
               else Finite 0) \<and>
            yardsAllowed (sts ! 2) = Finite 0 \<and> passYardsAllowed (sts ! 2) = Finite 0 \<and>
            rushYardsAllowed (sts ! 2) = Finite 0 \<and> sacks (sts ! 2) = Finite 0 \<and>
            interceptions (sts ! 2) = Finite 0 \<and> fumbles (sts ! 2) = Finite 0)"
    by blast
  with f have "team (sts ! 2) = ''DAL'' \<and> fullName (sts ! 2) = ''Dallas Cowboys'' \<and>
      logo (sts ! 2) = '''' \<and> pointsAllowed (sts ! 2) = Finite 20 \<and>
      yardsAllowed (sts ! 2) = Finite 0 \<and> passYardsAllowed (sts ! 2) = Finite 0 \<and>
      rushYardsAllowed (sts ! 2) = Finite 0 \<and> sacks (sts ! 2) = Finite 0 \<and>
      interceptions (sts ! 2) = Finite 0 \<and> fumbles (sts ! 2) = Finite 0"
    unfolding i2 by (simp add: sample_DAL_team_def g fl_eval)
  with a l h1 h2 f show ?thesis by auto
qed

text \<open>
  Claim C5. When the standings request answers with a non-success status, or the list of
  teams extracted from the standings document is empty, the handler answers with status 500
  (not a 2xx status) and the body \<open>{ error, stats: [] }\<close>; the only request it has issued is
  the one for standings, so no per-team request was made and nothing was scored.
\<close>

theorem primary_failure_error_envelope:
  "(standings_response w = Response False b \<longrightarrow>
      GET pf w now =
        (\<lparr>status = 500, body = Failure ''Failed to fetch standings'' []\<rparr>, [standingsUrl])) \<and>
   (standings_response w = Response True (Some doc) \<and> extractTeamsFromStandings pf doc = [] \<longrightarrow>
      GET pf w now =
        (\<lparr>status = 500, body = Failure ''No teams found in standings'' []\<rparr>, [standingsUrl]))"
  by (simp add: GET_def)

theorem primary_failure_error_envelope_witness:
  "standings_response (sample_upstream\<lparr>standings_response := Response False None\<rparr>) =
     Response False None \<and>
   GET sample_parseFloat (sample_upstream\<lparr>standings_response := Response False None\<rparr>) sample_now =
     (\<lparr>status = 500, body = Failure ''Failed to fetch standings'' []\<rparr>, [standingsUrl]) \<and>
   standings_response
     (sample_upstream\<lparr>standings_response := Response True (Some \<lparr>children = Some []\<rparr>)\<rparr>) =
     Response True (Some \<lparr>children = Some []\<rparr>) \<and>
   extractTeamsFromStandings sample_parseFloat \<lparr>children = Some []\<rparr> = [] \<and>
   GET sample_parseFloat
     (sample_upstream\<lparr>standings_response := Response True (Some \<lparr>children = Some []\<rparr>)\<rparr>)
     sample_now =
     (\<lparr>status = 500, body = Failure ''No teams found in standings'' []\<rparr>, [standingsUrl])"
proof -
  let ?down = "sample_upstream\<lparr>standings_response := Response False None\<rparr>"
  let ?empty = "sample_upstream\<lparr>standings_response := Response True (Some \<lparr>children = Some []\<rparr>)\<rparr>"
  have d: "standings_response ?down = Response False None" by simp
  have e: "standings_response ?empty = Response True (Some \<lparr>children = Some []\<rparr>)" by simp
  have x: "extractTeamsFromStandings sample_parseFloat \<lparr>children = Some []\<rparr> = []"
    by (simp add: extractTeamsFromStandings_def)
  from primary_failure_error_envelope [where w = ?down and b = None and pf = sample_parseFloat
      and now = sample_now]
    primary_failure_error_envelope [where w = ?empty and doc = "\<lparr>children = Some []\<rparr>"
      and pf = sample_parseFloat and now = sample_now]
    d e x
  show ?thesis by blast
qed

text \<open>
  Claim C6. \<open>getStat\<close> tries the candidate keys in order; a key matches an entry of the stat
  array by \<open>name\<close>, \<open>abbreviation\<close> or \<open>type\<close>. When no candidate matches any entry the result
  is 0. Otherwise the first candidate that matches decides, through the first entry it
  matches: the result is that entry's \<open>value\<close> when it is a number other than 0 and \<open>NaN\<close>,
  else what \<open>parseFloat\<close> reads from its \<open>displayValue\<close>, else 0; it is always a number,
  never \<open>NaN\<close>. For the candidates \<open>totalPointsAgainst\<close>, \<open>pointsAgainst\<close> over an array holding
  only \<open>pointsAgainst\<close> with value 310 the result is 310.
\<close>

theorem getStat_first_match:
  assumes "\<forall>n\<in>set pre. \<forall>x\<in>set sts. \<not> statMatches n x"
  shows "getStat pf sts pre = Finite 0 \<and>
    (sts = before @ s # after \<and> (\<forall>x\<in>set before. \<not> statMatches n x) \<and> statMatches n s \<longrightarrow>
       (\<forall>v. stat_value s = Some v \<and> truthy v \<longrightarrow> getStat pf sts (pre @ n # post) = v) \<and>
       ((stat_value s = None \<or> (\<exists>v. stat_value s = Some v \<and> \<not> truthy v)) \<longrightarrow>
          getStat pf sts (pre @ n # post) =
            (if pf (stat_displayValue s) = NaN then Finite 0 else pf (stat_displayValue s)))) \<and>
    getStat pf sts names \<noteq> NaN"
proof -
  have none: "find (statMatches m) sts = None" if "m \<in> set pre" for m
    using assms that by (simp add: find_None_iff)
  have skip: "getStat pf sts (ms @ rest) = getStat pf sts rest"
    if "\<forall>m\<in>set ms. find (statMatches m) sts = None" for ms rest
    using that by (induction ms) simp_all
  have zero: "getStat pf sts pre = Finite 0"
    using skip [of pre "[]"] none by simp
  have found: "find (statMatches n) (before @ s # after) = Some s"
    if "\<forall>x\<in>set before. \<not> statMatches n x" and "statMatches n s"
    using that by (induction before) simp_all
  have hit: "getStat pf sts (pre @ n # post) =
      or_num (stat_value s) (or_num (Some (pf (stat_displayValue s))) (Finite 0))"
    if "sts = before @ s # after" and "\<forall>x\<in>set before. \<not> statMatches n x" and "statMatches n s"
  proof -
    have "getStat pf sts (pre @ n # post) = getStat pf sts (n # post)"
      using skip [of pre "n # post"] none by simp
    also have "\<dots> = or_num (stat_value s) (or_num (Some (pf (stat_displayValue s))) (Finite 0))"
      using found [OF that(2,3)] that(1) by simp
    finally show ?thesis .
  qed
  show ?thesis
    using zero hit getStat_not_NaN [of pf sts names]
    by (auto simp: or_num_def truthy_def split: option.splits)
qed

theorem getStat_first_match_witness:
  "\<not> statMatches ''totalPointsAgainst'' sample_pointsAgainst \<and>
   statMatches ''pointsAgainst'' sample_pointsAgainst \<and>
   stat_value sample_pointsAgainst = Some (Finite 310) \<and> truthy (Finite 310) \<and>
   getStat sample_parseFloat [sample_pointsAgainst] [''totalPointsAgainst''] = Finite 0 \<and>
   getStat sample_parseFloat [sample_pointsAgainst] [''totalPointsAgainst'', ''pointsAgainst''] =
     Finite 310 \<and>
   statMatches ''STRK'' sample_unparsed \<and>
   stat_value sample_unparsed = None \<and>
   sample_parseFloat (stat_displayValue sample_unparsed) = NaN \<and>
   getStat sample_parseFloat [sample_pointsAgainst, sample_unparsed] [''STRK'', ''pointsAgainst''] =
     Finite 0"
proof -
  have a: "\<not> statMatches ''totalPointsAgainst'' sample_pointsAgainst"
    and b: "statMatches ''pointsAgainst'' sample_pointsAgainst"
    and c: "stat_value sample_pointsAgainst = Some (Finite 310)"
    and d: "\<not> statMatches ''STRK'' sample_pointsAgainst"
    and e: "statMatches ''STRK'' sample_unparsed"
    and f: "stat_value sample_unparsed = None"
    and g: "sample_parseFloat (stat_displayValue sample_unparsed) = NaN"
    by (simp_all add: statMatches_def sample_pointsAgainst_def sample_unparsed_def
        sample_parseFloat_def)
  have nz: "truthy (Finite 310)" by (simp add: truthy_def)
  from a have h: "\<forall>n\<in>set [''totalPointsAgainst'']. \<forall>x\<in>set [sample_pointsAgainst]. \<not> statMatches n x"
    by simp
  have l: "[sample_pointsAgainst] = [] @ sample_pointsAgainst # []"
    by (simp only: append_Nil)
  have n: "\<forall>x\<in>set []. \<not> statMatches ''pointsAgainst'' x" by simp
  from getStat_first_match [OF h, of sample_parseFloat "[]" sample_pointsAgainst "[]"
      "''pointsAgainst''" "[]"] l n b c nz
  have "getStat sample_parseFloat [sample_pointsAgainst] [''totalPointsAgainst''] = Finite 0 \<and>
    getStat sample_parseFloat [sample_pointsAgainst] ([''totalPointsAgainst''] @ ''pointsAgainst'' # []) =
      Finite 310"
    by blast
  then have first: "getStat sample_parseFloat [sample_pointsAgainst] [''totalPointsAgainst''] = Finite 0 \<and>
    getStat sample_parseFloat [sample_pointsAgainst] [''totalPointsAgainst'', ''pointsAgainst''] =
      Finite 310"
    by (simp only: append_Cons append_Nil)
  have h': "\<forall>n\<in>set []. \<forall>x\<in>set [sample_pointsAgainst, sample_unparsed]. \<not> statMatches n x"
    by simp
  have l': "[sample_pointsAgainst, sample_unparsed] = [sample_pointsAgainst] @ sample_unparsed # []"
    by (simp only: append_Cons append_Nil)
  from d have d': "\<forall>x\<in>set [sample_pointsAgainst]. \<not> statMatches ''STRK'' x" by simp
  from getStat_first_match [OF h', of sample_parseFloat "[sample_pointsAgainst]" sample_unparsed "[]"
      "''STRK''" "[''pointsAgainst'']"] l' d' e f
  have "getStat sample_parseFloat [sample_pointsAgainst, sample_unparsed]
      ([] @ ''STRK'' # [''pointsAgainst'']) =
      (if sample_parseFloat (stat_displayValue sample_unparsed) = NaN then Finite 0
       else sample_parseFloat (stat_displayValue sample_unparsed))"
    by blast
  then have second: "getStat sample_parseFloat [sample_pointsAgainst, sample_unparsed]
      [''STRK'', ''pointsAgainst''] = Finite 0"
    by (simp only: append_Nil g if_True simp_thms)
  from a b c nz first e f g second show ?thesis by (intro conjI) (elim conjE, assumption)+
qed

text \<open>
  Claim C7, as the specification states it: the per-game fields are the season total divided
  by games played, rounded to one decimal. It fails where games played is not positive: for
  the standings entry with -5 wins and 2 losses, \<open>gamesPlayed\<close> is -3, the points total is 300,
  and the guard \<open>gamesPlayed > 0\<close> writes 0 where the quotient rounded to one decimal is -100.
\<close>

theorem per_game_counterexample:
  "standingsEntryTeam sample_parseFloat sample_negative = sample_negative_team \<and>
   t_pointsAllowed sample_negative_team = Finite 300 \<and>
   t_gamesPlayed sample_negative_team = Finite (- 3) \<and>
   pointsAllowed (fst (fetchTeamDetailedStats (statistics_response sample_upstream)
     sample_negative_team)) = Finite 0 \<and>
   \<not> roundedTo1Decimal (300 / (- 3))
     (pointsAllowed (fst (fetchTeamDetailedStats (statistics_response sample_upstream)
       sample_negative_team)))"
proof -
  have g: "\<not> js_gt (t_gamesPlayed sample_negative_team) (Finite 0)"
    by (simp add: sample_negative_team_def js_gt_def)
  have z: "pointsAllowed (fst (fetchTeamDetailedStats (statistics_response sample_upstream)
     sample_negative_team)) = Finite 0"
    using g by (rule no_games_zero)
  have f: "t_pointsAllowed sample_negative_team = Finite 300"
    "t_gamesPlayed sample_negative_team = Finite (- 3)"
    by (simp_all add: sample_negative_team_def)
  have n: "\<not> roundedTo1Decimal (300 / (- 3))
     (pointsAllowed (fst (fetchTeamDetailedStats (statistics_response sample_upstream)
       sample_negative_team)))"
    unfolding z by (rule not_rounded_minus_100)
  from sample_negative_extracted f z n show ?thesis by (intro conjI)
qed

text \<open>
  Claim C7, amended. For a team with a positive finite number of games played \<open>G\<close>,
  \<open>pointsAllowed\<close> is the points total \<open>T\<close> from standings over games played, rounded to one
  decimal in double arithmetic, whatever the statistics request returns, provided the
  quotient does not exceed \<open>2\<^bsup>1020\<^esup>\<close> in magnitude: it is the double nearest to \<open>k / 10\<close> for an
  integer \<open>k\<close> within one half of \<open>10 T / G\<close>, up to the rounding error of the quotient and of
  the product. 340 points over 17 games give 20.0. When the statistics request succeeds and
  the opponent section has categories, \<open>yardsAllowed\<close>, \<open>passYardsAllowed\<close> and
  \<open>rushYardsAllowed\<close> are the opponent's total, net passing and rushing yards over games
  played, rounded in the same way. For a team whose number of games played is not positive
  (the wins and losses of its standings entry sum to a negative number) the four per-game
  fields are 0.
\<close>

theorem per_game_rounding:
  fixes tm :: StandingsTeam
  shows
  "(t_gamesPlayed tm = Finite G \<and> 0 < G \<longrightarrow>
      (\<forall>T. t_pointsAllowed tm = Finite T \<and> \<bar>T / G\<bar> \<le> pow2 1020 \<longrightarrow>
         roundedTo1Decimal (T / G) (pointsAllowed (fst (fetchTeamDetailedStats fetch tm)))) \<and>
      (t_pointsAllowed tm = Finite 340 \<and> G = 17 \<longrightarrow>
         pointsAllowed (fst (fetchTeamDetailedStats fetch tm)) = Finite 20) \<and>
      (fetch (statisticsUrl (t_id tm)) = Response True (Some data) \<and>
       opponentCategories (statsResults data) \<noteq> [] \<longrightarrow>
         (\<forall>Y. findStat (opponentCategories (statsResults data)) ''rushing'' ''totalYards'' =
                 Finite Y \<and> \<bar>Y / G\<bar> \<le> pow2 1020 \<longrightarrow>
            roundedTo1Decimal (Y / G) (yardsAllowed (fst (fetchTeamDetailedStats fetch tm)))) \<and>
         (\<forall>Y. findStat (opponentCategories (statsResults data)) ''passing'' ''netPassingYards'' =
                 Finite Y \<and> \<bar>Y / G\<bar> \<le> pow2 1020 \<longrightarrow>
            roundedTo1Decimal (Y / G) (passYardsAllowed (fst (fetchTeamDetailedStats fetch tm)))) \<and>
         (\<forall>Y. findStat (opponentCategories (statsResults data)) ''rushing'' ''rushingYards'' =
                 Finite Y \<and> \<bar>Y / G\<bar> \<le> pow2 1020 \<longrightarrow>
            roundedTo1Decimal (Y / G) (rushYardsAllowed (fst (fetchTeamDetailedStats fetch tm)))))) \<and>
   (\<not> js_gt (t_gamesPlayed tm) (Finite 0) \<longrightarrow>
      pointsAllowed (fst (fetchTeamDetailedStats fetch tm)) = Finite 0 \<and>
      yardsAllowed (fst (fetchTeamDetailedStats fetch tm)) = Finite 0 \<and>
      passYardsAllowed (fst (fetchTeamDetailedStats fetch tm)) = Finite 0 \<and>
      rushYardsAllowed (fst (fetchTeamDetailedStats fetch tm)) = Finite 0)"
proof (intro conjI impI allI)
  assume "\<not> js_gt (t_gamesPlayed tm) (Finite 0)"
  then show "pointsAllowed (fst (fetchTeamDetailedStats fetch tm)) = Finite 0"
    and "yardsAllowed (fst (fetchTeamDetailedStats fetch tm)) = Finite 0"
    and "passYardsAllowed (fst (fetchTeamDetailedStats fetch tm)) = Finite 0"
    and "rushYardsAllowed (fst (fetchTeamDetailedStats fetch tm)) = Finite 0"
    by (rule no_games_zero)+
next
  assume "t_gamesPlayed tm = Finite G \<and> 0 < G"
  then have G: "t_gamesPlayed tm = Finite G" "0 < G" by simp_all
  then have gt: "js_gt (t_gamesPlayed tm) (Finite 0)" by (simp add: js_gt_def)
  have pa: "pointsAllowed (fst (fetchTeamDetailedStats fetch tm)) =
      js_div (Math_round (js_mul (js_div (t_pointsAllowed tm) (Finite G)) (Finite 10))) (Finite 10)"
    using gt by (simp add: fetchTeamDetailedStats_keeps base_record_def G(1))
  {
    fix T
    assume "t_pointsAllowed tm = Finite T \<and> \<bar>T / G\<bar> \<le> pow2 1020"
    then have T: "t_pointsAllowed tm = Finite T" and b: "\<bar>T / G\<bar> \<le> pow2 1020"
      by (rule conjunct1, rule conjunct2)
    show "roundedTo1Decimal (T / G) (pointsAllowed (fst (fetchTeamDetailedStats fetch tm)))"
      unfolding pa T using G(2) b by (rule per_game_rounded)
  }
  {
    assume "t_pointsAllowed tm = Finite 340 \<and> G = 17"
    then show "pointsAllowed (fst (fetchTeamDetailedStats fetch tm)) = Finite 20"
      unfolding pa by (simp add: fl_eval)
  }
  assume "fetch (statisticsUrl (t_id tm)) = Response True (Some data) \<and>
       opponentCategories (statsResults data) \<noteq> []"
  then have f: "fetch (statisticsUrl (t_id tm)) = Response True (Some data)"
    and oc: "opponentCategories (statsResults data) \<noteq> []"
    by simp_all
  have m: "fst (fetchTeamDetailedStats fetch tm) = mergeStatistics tm (base_record tm) data"
    using f by (simp add: fetchTeamDetailedStats_def Let_def)
  note y = mergeStatistics_yards [OF oc gt, of "base_record tm", unfolded G(1)]
  {
    fix Y
    assume "findStat (opponentCategories (statsResults data)) ''rushing'' ''totalYards'' =
        Finite Y \<and> \<bar>Y / G\<bar> \<le> pow2 1020"
    then have Y: "findStat (opponentCategories (statsResults data)) ''rushing'' ''totalYards'' = Finite Y"
      and b: "\<bar>Y / G\<bar> \<le> pow2 1020"
      by (rule conjunct1, rule conjunct2)
    show "roundedTo1Decimal (Y / G) (yardsAllowed (fst (fetchTeamDetailedStats fetch tm)))"
      unfolding m y(1) Y using G(2) b by (rule per_game_rounded)
  }
  {
    fix Y
    assume "findStat (opponentCategories (statsResults data)) ''passing'' ''netPassingYards'' =
        Finite Y \<and> \<bar>Y / G\<bar> \<le> pow2 1020"
    then have Y: "findStat (opponentCategories (statsResults data)) ''passing'' ''netPassingYards'' = Finite Y"
      and b: "\<bar>Y / G\<bar> \<le> pow2 1020"
      by (rule conjunct1, rule conjunct2)
    show "roundedTo1Decimal (Y / G) (passYardsAllowed (fst (fetchTeamDetailedStats fetch tm)))"
      unfolding m y(2) Y using G(2) b by (rule per_game_rounded)
  }
  {
    fix Y
    assume "findStat (opponentCategories (statsResults data)) ''rushing'' ''rushingYards'' =
        Finite Y \<and> \<bar>Y / G\<bar> \<le> pow2 1020"
    then have Y: "findStat (opponentCategories (statsResults data)) ''rushing'' ''rushingYards'' = Finite Y"
      and b: "\<bar>Y / G\<bar> \<le> pow2 1020"
      by (rule conjunct1, rule conjunct2)
    show "roundedTo1Decimal (Y / G) (rushYardsAllowed (fst (fetchTeamDetailedStats fetch tm)))"
      unfolding m y(3) Y using G(2) b by (rule per_game_rounded)
  }
qed

theorem per_game_rounding_witness:
  "t_gamesPlayed sample_DAL_team = Finite 17 \<and> (0::real) < 17 \<and>
   t_pointsAllowed sample_DAL_team = Finite 340 \<and> \<bar>340 / 17 :: real\<bar> \<le> pow2 1020 \<and>
   roundedTo1Decimal (340 / 17)
     (pointsAllowed (fst (fetchTeamDetailedStats (statistics_response sample_upstream) sample_DAL_team))) \<and>
   pointsAllowed (fst (fetchTeamDetailedStats (statistics_response sample_upstream) sample_DAL_team)) =
     Finite 20 \<and>
   t_gamesPlayed sample_PHI_team = Finite 17 \<and>
   statistics_response sample_upstream (statisticsUrl (t_id sample_PHI_team)) =
     Response True (Some sample_PHI_statistics) \<and>
   opponentCategories (statsResults sample_PHI_statistics) \<noteq> [] \<and>
   findStat (opponentCategories (statsResults sample_PHI_statistics)) ''rushing'' ''totalYards'' =
     Finite 4732 \<and>
   \<bar>4732 / 17 :: real\<bar> \<le> pow2 1020 \<and>
   roundedTo1Decimal (4732 / 17)
     (yardsAllowed (fst (fetchTeamDetailedStats (statistics_response sample_upstream) sample_PHI_team))) \<and>
   yardsAllowed (fst (fetchTeamDetailedStats (statistics_response sample_upstream) sample_PHI_team)) =
     js_div (Finite 2784) (Finite 10) \<and>
   \<not> js_gt (t_gamesPlayed sample_negative_team) (Finite 0) \<and>
   pointsAllowed (fst (fetchTeamDetailedStats (statistics_response sample_upstream)
     sample_negative_team)) = Finite 0"
proof -
  have g: "t_gamesPlayed sample_DAL_team = Finite 17" "t_pointsAllowed sample_DAL_team = Finite 340"
    "t_gamesPlayed sample_PHI_team = Finite 17"
    by (simp_all add: sample_DAL_team_def sample_PHI_team_def)
  have pos: "(0::real) < 17" by simp
  have "(1::real) \<le> pow2 1020" using pow2_mono [of 0 1020] by (simp add: pow2_0)
  moreover have "pow2 10 \<le> pow2 1020" by (rule pow2_mono) simp
  then have "1024 \<le> pow2 1020" by (simp add: pow2_def)
  ultimately have small: "\<bar>340 / 17 :: real\<bar> \<le> pow2 1020" "\<bar>4732 / 17 :: real\<bar> \<le> pow2 1020"
    by simp_all
  have neg: "\<not> js_gt (t_gamesPlayed sample_negative_team) (Finite 0)"
    by (simp add: sample_negative_team_def js_gt_def)
  note dal = per_game_rounding [where tm = sample_DAL_team and G = 17
      and fetch = "statistics_response sample_upstream"]
  from dal g(1,2) pos small(1)
  have d1: "roundedTo1Decimal (340 / 17)
     (pointsAllowed (fst (fetchTeamDetailedStats (statistics_response sample_upstream) sample_DAL_team)))"
    by blast
  from dal g(1,2) pos
  have d2: "pointsAllowed (fst (fetchTeamDetailedStats (statistics_response sample_upstream)
     sample_DAL_team)) = Finite 20"
    by blast
  from per_game_rounding [where tm = sample_PHI_team and G = 17
      and fetch = "statistics_response sample_upstream" and data = sample_PHI_statistics]
    g(3) pos sample_PHI_fetched small(2)
  have p1: "roundedTo1Decimal (4732 / 17)
     (yardsAllowed (fst (fetchTeamDetailedStats (statistics_response sample_upstream) sample_PHI_team)))"
    by blast
  have "js_gt (t_gamesPlayed sample_PHI_team) (Finite 0)" by (simp add: g(3) js_gt_def)
  note y = mergeStatistics_yards(1) [OF sample_PHI_fetched(2) this, of "base_record sample_PHI_team"]
  have m: "fst (fetchTeamDetailedStats (statistics_response sample_upstream) sample_PHI_team) =
      mergeStatistics sample_PHI_team (base_record sample_PHI_team) sample_PHI_statistics"
    by (simp add: fetchTeamDetailedStats_def Let_def sample_PHI_fetched(1))
  have p2: "yardsAllowed (fst (fetchTeamDetailedStats (statistics_response sample_upstream)
      sample_PHI_team)) = js_div (Finite 2784) (Finite 10)"
    by (simp only: m y sample_PHI_fetched(3) g(3) per_game_4732)
  from per_game_rounding [where tm = sample_negative_team
      and fetch = "statistics_response sample_upstream"] neg
  have n1: "pointsAllowed (fst (fetchTeamDetailedStats (statistics_response sample_upstream)
     sample_negative_team)) = Finite 0"
    by blast
  from g(1) pos g(2) small(1) d1 d2 g(3) sample_PHI_fetched small(2) p1 p2 neg n1
  show ?thesis by (intro conjI)
qed

text \<open>
  Claim C8, as the specification states it: in every result set the \<open>team\<close> field is unique
  across the records. It fails on a standings document that lists a team twice: the handler
  has no step that drops a repeated team.
\<close>

theorem unique_team_counterexample:
  "\<not> distinct (map team (env_stats (body (fst (GET sample_parseFloat sample_duplicate_upstream sample_now)))))"
proof -
  have "standings_response sample_duplicate_upstream = Response True (Some
        \<lparr>children = Some [\<lparr>standings_entries = Some [sample_PHI]\<rparr>,
                           \<lparr>standings_entries = Some [sample_PHI, sample_DAL]\<rparr>]\<rparr>)"
    by (simp add: sample_duplicate_upstream_def)
  then have "map team (env_stats (body (fst (GET sample_parseFloat sample_duplicate_upstream sample_now)))) =
      map (\<lambda>e. espn_abbreviation (entry_team e)) [sample_PHI, sample_PHI, sample_DAL]"
    by (simp add: GET_teams standingsEntries_def)
  then show ?thesis by simp
qed

text \<open>
  Claim C8, amended: the result set holds exactly one record per entry of the standings
  document, in document order, whose \<open>team\<close> is the entry's abbreviation, and no record for
  a team that standings do not list; so the \<open>team\<close> field is unique across the result set
  exactly when the abbreviations of the standings entries are pairwise distinct. When the
  standings request yields no document the result set is empty.
\<close>

theorem one_record_per_standings_entry:
  "(standings_response w = Response True (Some doc) \<longrightarrow>
      map team (env_stats (body (fst (GET pf w now)))) =
        map (\<lambda>e. espn_abbreviation (entry_team e)) (standingsEntries doc) \<and>
      (distinct (map team (env_stats (body (fst (GET pf w now))))) \<longleftrightarrow>
        distinct (map (\<lambda>e. espn_abbreviation (entry_team e)) (standingsEntries doc)))) \<and>
   ((standings_response w = Rejected \<or> (\<exists>b. standings_response w = Response False b) \<or>
     standings_response w = Response True None) \<longrightarrow>
      env_stats (body (fst (GET pf w now))) = [])"
proof -
  have bad: "env_stats (body (fst (GET pf w now))) = []"
    if "standings_response w = Rejected \<or> (\<exists>b. standings_response w = Response False b) \<or>
     standings_response w = Response True None"
    using GET_failure_cases [OF that, of pf] by auto
  from GET_teams [of w doc pf now] bad show ?thesis by simp
qed

theorem one_record_per_standings_entry_witness:
  "standings_response sample_upstream = Response True (Some sample_standings) \<and>
   map (\<lambda>e. espn_abbreviation (entry_team e)) (standingsEntries sample_standings) =
     [''BUF'', ''PHI'', ''DAL''] \<and>
   map team (env_stats (body (fst (GET sample_parseFloat sample_upstream sample_now)))) =
     [''BUF'', ''PHI'', ''DAL''] \<and>
   distinct (map team (env_stats (body (fst (GET sample_parseFloat sample_upstream sample_now)))))"
proof -
  have h: "standings_response sample_upstream = Response True (Some sample_standings)"
    by (simp add: sample_upstream_def)
  have e: "map (\<lambda>e. espn_abbreviation (entry_team e)) (standingsEntries sample_standings) =
     [''BUF'', ''PHI'', ''DAL'']"
    by code_simp
  from one_record_per_standings_entry [of sample_upstream sample_standings sample_parseFloat sample_now] h
  have m: "map team (env_stats (body (fst (GET sample_parseFloat sample_upstream sample_now)))) =
        map (\<lambda>e. espn_abbreviation (entry_team e)) (standingsEntries sample_standings)"
    by blast
  have "distinct [''BUF'', ''PHI'', ''DAL'']" by simp
  with h e m show ?thesis by simp
qed

text \<open>
  Claim C9. The handler is a function of the upstream responses and of the clock reading,
  and the clock reading reaches the output in the \<open>lastUpdated\<close> field only: two runs on the
  same upstream responses issue the same requests and return the same status and the same
  body apart from \<open>lastUpdated\<close>, which holds each run's own clock reading.
\<close>

theorem GET_deterministic_up_to_lastUpdated:
  "withoutLastUpdated (fst (GET pf w now1)) = withoutLastUpdated (fst (GET pf w now2)) \<and>
   snd (GET pf w now1) = snd (GET pf w now2) \<and>
   (\<forall>s l src. body (fst (GET pf w now1)) = Success s l src \<longrightarrow> l = now1)"
  using GET_shape [of pf w] by (auto simp: withoutLastUpdated_def)

theorem GET_deterministic_up_to_lastUpdated_witness:
  "sample_now \<noteq> sample_later \<and>
   lastUpdated (body (fst (GET sample_parseFloat sample_upstream sample_now))) = sample_now \<and>
   lastUpdated (body (fst (GET sample_parseFloat sample_upstream sample_later))) = sample_later \<and>
   withoutLastUpdated (fst (GET sample_parseFloat sample_upstream sample_now)) =
     withoutLastUpdated (fst (GET sample_parseFloat sample_upstream sample_later)) \<and>
   snd (GET sample_parseFloat sample_upstream sample_now) =
     snd (GET sample_parseFloat sample_upstream sample_later)"
proof -
  have d: "sample_now \<noteq> sample_later" by (simp add: sample_now_def sample_later_def)
  have h: "standings_response sample_upstream = Response True (Some sample_standings)"
    by (simp add: sample_upstream_def)
  have n: "extractTeamsFromStandings sample_parseFloat sample_standings \<noteq> []"
    by (simp add: sample_teams)
  have a: "lastUpdated (body (fst (GET sample_parseFloat sample_upstream sample_now))) = sample_now"
    by (simp add: GET_success [OF h n])
  have b: "lastUpdated (body (fst (GET sample_parseFloat sample_upstream sample_later))) = sample_later"
    by (simp add: GET_success [OF h n])
  from GET_deterministic_up_to_lastUpdated [of sample_parseFloat sample_upstream sample_now sample_later]
    d a b
  show ?thesis by blast
qed

end
